theory Spec2Isabelle
  imports Complex_Main "HOL-Library.Multiset"
begin

section \<open>msAnalyzer: natural-abundance correction and ion clustering\<close>

text \<open>
  A shallow embedding of the computational core of \<^verbatim>\<open>msAnalyzer.py\<close>: the class
  \<^verbatim>\<open>NAProcess\<close> (formula strings, correction matrix, correction of a data frame) and
  the parts of \<^verbatim>\<open>MSDataContainer\<close> that resolve ion clusters and fit standard curves.
  Python exceptions are values of \<open>error\<close>; a function that can raise returns
  \<open>error + 'a\<close>. Python integers are \<open>int\<close> (or \<open>nat\<close> where the source only
  produces counts and indices); \<^verbatim>\<open>float64\<close> values are taken as exact \<open>real\<close>
  numbers, so rounding is not part of the model.
\<close>

datatype error =
    KeyError | IndexError | ValueError | UnboundLocalError | AttributeError | LinAlgError
  | AssertionError | ZeroDivisionError

subsection \<open>Decimal strings: \<^verbatim>\<open>str(n)\<close> and \<^verbatim>\<open>int(s)\<close>\<close>

definition digit_char :: "nat \<Rightarrow> char" where
  "digit_char d = ''0123456789'' ! d"

function str_nat :: "nat \<Rightarrow> string" where
  "str_nat n = (if n < 10 then [digit_char n] else str_nat (n div 10) @ [digit_char (n mod 10)])"
  by pat_completeness auto
termination
  by (relation "measure (\<lambda>n. n)") auto

declare str_nat.simps [simp del]

definition str_int :: "int \<Rightarrow> string" where
  "str_int i = (if i < 0 then ''-'' @ str_nat (nat (- i)) else str_nat (nat i))"

subsection \<open>Ion columns and their grouping (\<^verbatim>\<open>MSDataContainer\<close>)\<close>

text \<open>
  \<^verbatim>\<open>__parseIon\<close> returns a dictionary with the keys \<^verbatim>\<open>id\<close>, \<^verbatim>\<open>mass\<close> and
  \<^verbatim>\<open>description\<close>; the grouping works on \<^verbatim>\<open>enumerate(ionsDetected)\<close>, pairs of the
  column index and the ion.
\<close>

record ion =
  ionID :: int
  ionMass :: int
  ionDescription :: string

type_synonym indexed_ion = "nat \<times> ion"


text \<open>
  \<^verbatim>\<open>itertools.groupby(xs, key)\<close>: a new group starts whenever the key changes, so a
  group is a maximal run of consecutive elements with one key.
\<close>

function groupby :: "('a \<Rightarrow> 'k) \<Rightarrow> 'a list \<Rightarrow> ('k \<times> 'a list) list" where
  "groupby key [] = []"
| "groupby key (x # xs) =
     (key x, x # takeWhile (\<lambda>y. key y = key x) xs)
       # groupby key (dropWhile (\<lambda>y. key y = key x) xs)"
  by pat_completeness auto
termination
  by (relation "measure (\<lambda>(key, xs). length xs)")
     (auto simp: length_dropWhile_le less_Suc_eq_le)

text \<open>
  \<^verbatim>\<open>groupsIntraSorted\<close>: each group sorted by mass; Python's \<^verbatim>\<open>sorted\<close> is stable,
  as \<^const>\<open>sort_key\<close> is.
\<close>

definition groupsIntraSorted :: "ion list \<Rightarrow> (string \<times> indexed_ion list) list" where
  "groupsIntraSorted ionsDetected =
     map (\<lambda>grp. (fst grp, sort_key (\<lambda>ion. ionMass (snd ion)) (snd grp)))
       (groupby (\<lambda>ion. ionDescription (snd ion)) (enumerate 0 ionsDetected))"

text \<open>\<^verbatim>\<open>masses[1:] - masses[0:-1]\<close> and \<^verbatim>\<open>np.where(differences != 1)[0]\<close>.\<close>

definition differences :: "int list \<Rightarrow> int list" where
  "differences masses = map2 (\<lambda>a b. a - b) (tl masses) (butlast masses)"

definition where_not_one :: "int list \<Rightarrow> nat list" where
  "where_not_one ds = filter (\<lambda>k. ds ! k \<noteq> 1) [0..<length ds]"

text \<open>
  The inner loop \<^verbatim>\<open>for i in range(len(idx[0])+1)\<close>: \<open>idx\<close> holds the split points
  still to come, \<open>start\<close> and \<open>i\<close> are the loop's variables. The slice
  \<^verbatim>\<open>group[start:end]\<close> is \<open>take (end - start) (drop start group)\<close>.
\<close>

fun split_loop :: "string \<Rightarrow> 'a list \<Rightarrow> nat list \<Rightarrow> nat \<Rightarrow> nat \<Rightarrow> (string \<times> 'a list) list" where
  "split_loop key grp [] start i = [(key @ ''-'' @ str_nat i, drop start grp)]"
| "split_loop key grp (e # idx) start i =
     (key @ ''-'' @ str_nat i, take (e + 1 - start) (drop start grp))
       # split_loop key grp idx (e + 1) (i + 1)"

text \<open>The body of \<^verbatim>\<open>for key,group in groupsIntraSorted\<close>: what one group appends.\<close>

definition split_group :: "string \<Rightarrow> indexed_ion list \<Rightarrow> (string \<times> indexed_ion list) list" where
  "split_group key grp =
     (if length grp \<noteq> 1 then
        (let masses = map (\<lambda>ion. ionMass (snd ion)) grp;
             idx = where_not_one (differences masses)
         in if length idx > 0 then split_loop key grp idx 0 0 else [(key, grp)])
      else [(key, grp)])"

fun finalGroups :: "(string \<times> indexed_ion list) list \<Rightarrow> (string \<times> indexed_ion list) list" where
  "finalGroups [] = []"
| "finalGroups ((key, grp) # rest) = split_group key grp @ finalGroups rest"

definition getIonParentedGroups :: "ion list \<Rightarrow> (string \<times> indexed_ion list) list" where
  "getIonParentedGroups ionsDetected = finalGroups (groupsIntraSorted ionsDetected)"

text \<open>
  The column names of \<^verbatim>\<open>_computeFileAttributes\<close> (\<^verbatim>\<open>sortedIonNames\<close>): for every
  group, \<^verbatim>\<open>C{description[:2]}:{description[2:]} ({group[0] mass}) M.{n}\<close> with \<open>n\<close>
  the position in the group.
\<close>

definition ionName :: "int \<Rightarrow> nat \<Rightarrow> ion \<Rightarrow> string" where
  "ionName mass0 n ion =
     ''C'' @ take 2 (ionDescription ion) @ '':'' @ drop 2 (ionDescription ion)
       @ '' ('' @ str_int mass0 @ '') M.'' @ str_nat n"

fun groupIonNames :: "indexed_ion list \<Rightarrow> (nat \<times> string) list" where
  "groupIonNames [] = []"
| "groupIonNames (first # rest) =
     map (\<lambda>(n, (idx, ion)). (idx, ionName (ionMass (snd first)) n ion))
       (enumerate 0 (first # rest))"

definition sortedIonNames :: "(string \<times> indexed_ion list) list \<Rightarrow> (nat \<times> string) list" where
  "sortedIonNames groups = concat (map (\<lambda>(key, grp). groupIonNames grp) groups)"

text \<open>Consecutive masses one unit apart, and the jumps between neighbouring clusters.\<close>

fun unit_steps :: "int list \<Rightarrow> bool" where
  "unit_steps (a # b # ms) = (b - a = 1 \<and> unit_steps (b # ms))"
| "unit_steps ms = True"

fun jumps_between :: "int list list \<Rightarrow> bool" where
  "jumps_between (s # t # ss) = (s \<noteq> [] \<and> t \<noteq> [] \<and> hd t - last s \<noteq> 1 \<and> jumps_between (t # ss))"
| "jumps_between ss = True"

text \<open>
  A cluster labelled from its lowest mass: the masses are those of the first ion plus
  0, 1, 2, \<dots>, and the ion at position \<open>n\<close> is named with the first ion's mass and
  \<^verbatim>\<open>M.n\<close>.
\<close>

definition labelled_from_lowest :: "indexed_ion list \<Rightarrow> bool" where
  "labelled_from_lowest c =
     (map (\<lambda>ion. ionMass (snd ion)) c = map (\<lambda>n. ionMass (snd (hd c)) + int n) [0..<length c]
      \<and> groupIonNames c =
          map (\<lambda>n. (fst (c ! n), ionName (ionMass (snd (hd c))) n (snd (c ! n)))) [0..<length c])"


text \<open>
  Concrete column lists. \<open>cluster_example d ids\<close> has the masses 100, 101, 102, 105, 106
  under the one description \<open>d\<close>. \<open>ions_apart\<close> and \<open>ions_adjacent\<close> are lists of
  five columns with two descriptions, so both are labeled experiments; in \<open>ions_apart\<close>
  the columns of description \<^verbatim>\<open>160\<close> are separated by a column of another
  description, in \<open>ions_adjacent\<close> equal descriptions are neighbours.
\<close>

definition cluster_example :: "string \<Rightarrow> int list \<Rightarrow> ion list" where
  "cluster_example d ids =
     map2 (\<lambda>i m. \<lparr>ionID = i, ionMass = m, ionDescription = d\<rparr>) ids [100, 101, 102, 105, 106]"



subsection \<open>Formula strings and compositions (\<^verbatim>\<open>NAProcess\<close>)\<close>

definition is_digit :: "char \<Rightarrow> bool" where
  "is_digit c = (c \<in> set ''0123456789'')"

definition digit_val :: "char \<Rightarrow> nat" where
  "digit_val c = of_char c - 48"

text \<open>\<^verbatim>\<open>int(s)\<close> for a string of decimal digits.\<close>

definition int_of_digits :: "string \<Rightarrow> nat" where
  "int_of_digits s = foldl (\<lambda>a c. 10 * a + digit_val c) 0 s"

text \<open>
  \<^verbatim>\<open>re.findall("C([0-9]+):([0-9]+)", entry)[0]\<close>: the leftmost match. At a given
  position the pattern needs \<^verbatim>\<open>C\<close>, then the whole run of digits that follows (a
  shorter run would be followed by a digit, not by the colon), at least one of them, then
  the colon and again a non-empty run of digits, taken greedily. \<open>None\<close> stands for the
  empty list of matches, on which \<^verbatim>\<open>[0]\<close> raises \<^verbatim>\<open>IndexError\<close>.
\<close>

fun match_chain :: "string \<Rightarrow> (string \<times> string) option" where
  "match_chain (c # s) =
     (if c = CHR ''C'' \<and> takeWhile is_digit s \<noteq> [] then
        (case dropWhile is_digit s of
           [] \<Rightarrow> None
         | c' # s' \<Rightarrow>
             if c' = CHR '':'' \<and> takeWhile is_digit s' \<noteq> []
             then Some (takeWhile is_digit s, takeWhile is_digit s') else None)
      else None)"
| "match_chain [] = None"

fun first_chain :: "string \<Rightarrow> (string \<times> string) option" where
  "first_chain [] = None"
| "first_chain (c # s) =
     (case match_chain (c # s) of Some m \<Rightarrow> Some m | None \<Rightarrow> first_chain s)"

text \<open>
  \<^verbatim>\<open>getFAFormulaString\<close>. The letters with a count \<open>n > 0\<close> are written, each followed
  by \<^verbatim>\<open>str(n)\<close>.
\<close>

definition getFAFormulaString :: "string \<Rightarrow> bool \<Rightarrow> bool \<Rightarrow> error + string" where
  "getFAFormulaString entry FAMES CHOL =
     (case first_chain entry of
        None \<Rightarrow> Inl IndexError
      | Some (c, d) \<Rightarrow>
          (let carbon = int (int_of_digits c);
               doubleBond = int (int_of_digits d);
               hydrogen = 3 + (carbon - 2) * 2 + 1 - 2 * doubleBond;
               oxygen = 2;
               silicon = 0;
               (carbon, hydrogen) =
                  (if FAMES then (carbon + 1, hydrogen - 1 + 3) else (carbon, hydrogen));
               (carbon, hydrogen, oxygen, silicon) =
                  (if CHOL then (30, 54, 1, 1) else (carbon, hydrogen, oxygen, silicon))
           in Inr (concat (map (\<lambda>(letter, n). letter @ str_int n)
                    (filter (\<lambda>(letter, n). n > 0)
                       [(''C'', carbon), (''H'', hydrogen), (''Si'', silicon), (''O'', oxygen)])))))"

text \<open>
  \<^verbatim>\<open>__getNaturalAbundanceDistributions\<close>: the table of the isotopic proportions, a
  dictionary kept as an association list in the order of its keys.
\<close>

definition NaturalAbundanceDistributions :: "(string \<times> real list) list" where
  "NaturalAbundanceDistributions =
     [(''H'', [0.999885, 0.000115]),
      (''C'', [0.9893, 0.0107]),
      (''N'', [0.99632, 0.00368]),
      (''O'', [0.99757, 0.00038, 0.00205]),
      (''Si'', [0.922297, 0.046832, 0.030872]),
      (''S'', [0.9493, 0.0076, 0.0429, 0.0002])]"

text \<open>
  \<^verbatim>\<open>re.findall("(H|C|N|O|Si|S)([0-9]{0,})", formula)\<close>: at every position the
  alternatives are tried in the order of the table's keys, the first that is a prefix of
  the rest of the string is taken with all digits that follow, and the scan goes on after
  the match; where no alternative matches, the scan moves one character on.
\<close>

fun match_element :: "string list \<Rightarrow> string \<Rightarrow> (string \<times> string) option" where
  "match_element [] s = None"
| "match_element (k # ks) s =
     (if take (length k) s = k then Some (k, drop (length k) s) else match_element ks s)"

lemma match_element_Some:
  "match_element ks s = Some (el, rest) \<Longrightarrow> el \<in> set ks \<and> rest = drop (length el) s"
  by (induction ks) (auto split: if_splits)

function findall_elements :: "string \<Rightarrow> (string \<times> string) list" where
  "findall_elements [] = []"
| "findall_elements (c # s) =
     (case match_element (map fst NaturalAbundanceDistributions) (c # s) of
        None \<Rightarrow> findall_elements s
      | Some (el, rest) \<Rightarrow>
          (el, takeWhile is_digit rest) # findall_elements (dropWhile is_digit rest))"
  by pat_completeness auto
termination
proof (relation "measure length")
  fix c s x2 x y
  assume "match_element (map fst NaturalAbundanceDistributions) (c # s) = Some x2" "(x, y) = x2"
  then have m: "match_element (map fst NaturalAbundanceDistributions) (c # s) = Some (x, y)"
    by simp
  from match_element_Some[OF m] have "x \<noteq> []" and y: "y = drop (length x) (c # s)"
    by (auto simp: NaturalAbundanceDistributions_def)
  then have "length y \<le> length s" by (cases x) auto
  moreover have "length (dropWhile is_digit y) \<le> length y" by (rule length_dropWhile_le)
  ultimately show "(dropWhile is_digit y, c # s) \<in> measure length" by simp
qed simp_all

text \<open>
  \<^verbatim>\<open>parseFormula\<close>: the dictionary starts with every key of the table at 0, and every
  match adds its count (1 when no digits follow). A Python dictionary keeps a key's
  place when its value changes.
\<close>

definition add_count :: "(string \<times> nat) list \<Rightarrow> string \<times> string \<Rightarrow> (string \<times> nat) list" where
  "add_count elementDict m =
     (case m of (element, n) \<Rightarrow>
        map (\<lambda>(e, c). if e = element then (e, c + (if n \<noteq> [] then int_of_digits n else 1)) else (e, c))
          elementDict)"

definition parseFormula :: "string \<Rightarrow> (string \<times> nat) list" where
  "parseFormula formula =
     foldl add_count (map (\<lambda>element. (element, 0)) (map fst NaturalAbundanceDistributions))
       (findall_elements formula)"

subsection \<open>The correction matrix (\<^verbatim>\<open>NAProcess.computeCorrectionMatrix\<close>)\<close>

text \<open>
  \<^verbatim>\<open>np.convolve(a, v)\<close> in its default mode: the full discrete convolution, of length
  \<open>len(a) + len(v) - 1\<close>, whose entry \<open>k\<close> is the sum of \<open>a[j] * v[k - j]\<close> over the
  \<open>j\<close> for which both indices exist. It raises \<^verbatim>\<open>ValueError\<close> on an empty argument.
\<close>

definition coeff :: "real list \<Rightarrow> nat \<Rightarrow> real" where
  "coeff xs k = (if k < length xs then xs ! k else 0)"

definition convolve :: "real list \<Rightarrow> real list \<Rightarrow> real list" where
  "convolve a v =
     map (\<lambda>k. \<Sum>j\<leftarrow>[0..<Suc k]. coeff a j * coeff v (k - j)) [0..<length a + length v - 1]"

definition np_convolve :: "real list \<Rightarrow> real list \<Rightarrow> error + real list" where
  "np_convolve a v = (if a = [] \<or> v = [] then Inl ValueError else Inr (convolve a v))"

text \<open>
  \<^verbatim>\<open>__calculateMassDistributionVector\<close>: the inner loop \<^verbatim>\<open>for i in range(n)\<close> looks the
  atom up in the table at every turn (\<^verbatim>\<open>KeyError\<close> when it is missing), the outer loop
  goes through the items of the dictionary and skips the tracer.
\<close>

fun convolve_n ::
  "nat \<Rightarrow> (string \<times> real list) list \<Rightarrow> string \<Rightarrow> real list \<Rightarrow> error + real list" where
  "convolve_n 0 NADistributions atom result = Inr result"
| "convolve_n (Suc i) NADistributions atom result =
     (case map_of NADistributions atom of
        None \<Rightarrow> Inl KeyError
      | Some distribution \<Rightarrow>
          (case np_convolve result distribution of
             Inl e \<Rightarrow> Inl e
           | Inr r \<Rightarrow> convolve_n i NADistributions atom r))"

fun mass_distribution_loop ::
  "(string \<times> nat) list \<Rightarrow> string \<Rightarrow> (string \<times> real list) list \<Rightarrow> real list
     \<Rightarrow> error + real list" where
  "mass_distribution_loop [] atomTracer NADistributions result = Inr result"
| "mass_distribution_loop ((atom, n) # items) atomTracer NADistributions result =
     (if atom \<noteq> atomTracer then
        (case convolve_n n NADistributions atom result of
           Inl e \<Rightarrow> Inl e
         | Inr r \<Rightarrow> mass_distribution_loop items atomTracer NADistributions r)
      else mass_distribution_loop items atomTracer NADistributions result)"

definition calculateMassDistributionVector ::
  "(string \<times> nat) list \<Rightarrow> string \<Rightarrow> (string \<times> real list) list \<Rightarrow> error + real list" where
  "calculateMassDistributionVector elementDict atomTracer NADistributions =
     mass_distribution_loop elementDict atomTracer NADistributions [1]"

text \<open>
  One column of the matrix: \<open>k\<close> times \<^verbatim>\<open>column = np.convolve(column, v)[:m]\<close>,
  first with the purity vector, then with the tracer's own distribution.
\<close>

fun convolve_trunc_n :: "nat \<Rightarrow> nat \<Rightarrow> real list \<Rightarrow> real list \<Rightarrow> error + real list" where
  "convolve_trunc_n 0 m v column = Inr column"
| "convolve_trunc_n (Suc k) m v column =
     (case np_convolve column v of
        Inl e \<Rightarrow> Inl e
      | Inr r \<Rightarrow> convolve_trunc_n k m v (take m r))"

definition correction_column ::
  "nat \<Rightarrow> nat \<Rightarrow> real list \<Rightarrow> real list \<Rightarrow> real list \<Rightarrow> nat \<Rightarrow> error + real list" where
  "correction_column m nAtomTracer correctionVector purityTracer tracerNADistribution i =
     (case convolve_trunc_n i m purityTracer (take m correctionVector) of
        Inl e \<Rightarrow> Inl e
      | Inr column \<Rightarrow> convolve_trunc_n (nAtomTracer - i) m tracerNADistribution column)"

text \<open>The loop \<^verbatim>\<open>for i in range(nAtomTracer+1)\<close>; the first error ends it.\<close>

fun all_columns :: "(nat \<Rightarrow> error + real list) \<Rightarrow> nat list \<Rightarrow> error + real list list" where
  "all_columns f [] = Inr []"
| "all_columns f (i # is) =
     (case f i of
        Inl e \<Rightarrow> Inl e
      | Inr column \<Rightarrow>
          (case all_columns f is of Inl e \<Rightarrow> Inl e | Inr columns \<Rightarrow> Inr (column # columns)))"

text \<open>
  A two-dimensional array is the list of its rows. \<open>rows_of m columns\<close> is the array
  of \<open>m\<close> rows whose column \<open>i\<close> is \<open>columns ! i\<close>, what the assignments
  \<^verbatim>\<open>correctionMatrix[:,i] = column\<close> leave in \<^verbatim>\<open>np.zeros((m, nAtomTracer+1))\<close>; every
  column assigned has length \<open>m\<close>.
\<close>

definition rows_of :: "nat \<Rightarrow> real list list \<Rightarrow> real list list" where
  "rows_of m columns = map (\<lambda>r. map (\<lambda>column. column ! r) columns) [0..<m]"

definition tracer_absent_message :: string where
  "tracer_absent_message = ''The isotopic tracer must to be present in the metabolite formula!''"

definition matrix_size_message :: string where
  "matrix_size_message =
     ''There might be a problem in matrix size.'' @ [CHR 0x0A]
       @ ''Fragment does not contains enough atoms to generate this isotopic cluster.''"

text \<open>
  \<^verbatim>\<open>computeCorrectionMatrix\<close>, with what it prints. The lookup of the tracer in the
  composition is inside \<^verbatim>\<open>try\<close>/\<^verbatim>\<open>except\<close>, which prints and goes on, so that
  \<^verbatim>\<open>nAtomTracer\<close> stays unbound; the lookup in the table is not. \<^verbatim>\<open>np.zeros\<close> raises
  \<^verbatim>\<open>ValueError\<close> on a negative dimension.
\<close>

definition computeCorrectionMatrix ::
  "(string \<times> nat) list \<Rightarrow> string \<Rightarrow> (string \<times> real list) list \<Rightarrow> real list
     \<Rightarrow> string list \<times> (error + real list list)" where
  "computeCorrectionMatrix elementDict atomTracer NADistributions purityTracer =
     (case calculateMassDistributionVector elementDict atomTracer NADistributions of
        Inl e \<Rightarrow> ([], Inl e)
      | Inr correctionVector \<Rightarrow>
          (let printed = (case map_of elementDict atomTracer of
                            None \<Rightarrow> [tracer_absent_message] | Some n \<Rightarrow> [])
           in case map_of NADistributions atomTracer of
                None \<Rightarrow> (printed, Inl KeyError)
              | Some tracerNADistribution \<Rightarrow>
                  (case map_of elementDict atomTracer of
                     None \<Rightarrow> (printed, Inl UnboundLocalError)
                   | Some nAtomTracer \<Rightarrow>
                       (let m = 1 + int nAtomTracer * (int (length tracerNADistribution) - 1);
                            c = int (length correctionVector);
                            printed = printed @
                              (if m > c + int nAtomTracer * (int (length tracerNADistribution) - 1)
                               then [matrix_size_message] else []);
                            correctionVector =
                              (if c < m then correctionVector @ replicate (nat (m - c)) 0
                               else correctionVector)
                        in if m < 0 then (printed, Inl ValueError)
                           else
                             (case all_columns
                                     (correction_column (nat m) nAtomTracer correctionVector
                                        purityTracer tracerNADistribution)
                                     [0..<nAtomTracer + 1] of
                                Inl e \<Rightarrow> (printed, Inl e)
                              | Inr columns \<Rightarrow> (printed, Inr (rows_of (nat m) columns)))))))"

subsection \<open>Correcting a data frame (\<^verbatim>\<open>NAProcess.correctForNaturalAbundance\<close>)\<close>

text \<open>
  The object: \<^verbatim>\<open>__init__\<close> stores the table, the formula string, the composition, the
  tracer, its purity vector and the correction matrix. An exception in \<^verbatim>\<open>__init__\<close>
  leaves no object.
\<close>

record NAProcess =
  self_NaturalAbundanceDistributions :: "(string \<times> real list) list"
  self_formula :: string
  self_elementsDict :: "(string \<times> nat) list"
  self_atomTracer :: string
  self_purityTracer :: "real list"
  self_correctionMatrix :: "real list list"

definition NAProcess_init ::
  "string \<Rightarrow> string \<Rightarrow> real list \<Rightarrow> bool \<Rightarrow> bool \<Rightarrow> string list \<times> (error + NAProcess)" where
  "NAProcess_init entry atomTracer purityTracer FAMES CHOL =
     (case getFAFormulaString entry FAMES CHOL of
        Inl e \<Rightarrow> ([], Inl e)
      | Inr formula \<Rightarrow>
          (let elementsDict = parseFormula formula in
           case computeCorrectionMatrix elementsDict atomTracer NaturalAbundanceDistributions
                  purityTracer of
             (printed, Inl e) \<Rightarrow> (printed, Inl e)
           | (printed, Inr correctionMatrix) \<Rightarrow>
               (printed,
                Inr \<lparr>self_NaturalAbundanceDistributions = NaturalAbundanceDistributions,
                     self_formula = formula,
                     self_elementsDict = elementsDict,
                     self_atomTracer = atomTracer,
                     self_purityTracer = purityTracer,
                     self_correctionMatrix = correctionMatrix\<rparr>)))"

text \<open>
  A \<^verbatim>\<open>pandas\<close> data frame: its column labels and its rows, every row as long as the
  list of labels.
\<close>

record data_frame =
  df_columns :: "string list"
  df_values :: "real list list"

definition wf_frame :: "data_frame \<Rightarrow> bool" where
  "wf_frame df = list_all (\<lambda>row. length row = length (df_columns df)) (df_values df)"

text \<open>
  \<^verbatim>\<open>_computeCost\<close>. \<^verbatim>\<open>np.dot\<close> of a matrix and a vector needs the vector as long as
  the matrix is wide; the difference of two vectors is taken entry by entry when they
  are equally long, and a vector of length 1 is broadcast against the other; anything
  else raises \<^verbatim>\<open>ValueError\<close>.
\<close>

definition dot :: "real list \<Rightarrow> real list \<Rightarrow> real" where
  "dot a b = sum_list (map2 (*) a b)"

definition dot_matrix_vector :: "real list list \<Rightarrow> real list \<Rightarrow> error + real list" where
  "dot_matrix_vector M x =
     (if list_all (\<lambda>row. length row = length x) M then Inr (map (\<lambda>row. dot row x) M)
      else Inl ValueError)"

definition subtract :: "real list \<Rightarrow> real list \<Rightarrow> error + real list" where
  "subtract a b =
     (if length a = length b then Inr (map2 (-) a b)
      else if length b = 1 then Inr (map (\<lambda>x. x - hd b) a)
      else if length a = 1 then Inr (map (\<lambda>y. hd a - y) b)
      else Inl ValueError)"

definition columns_of :: "real list list \<Rightarrow> real list list" where
  "columns_of M = (case M of [] \<Rightarrow> [] | row # rows \<Rightarrow>
      map (\<lambda>i. map (\<lambda>r. r ! i) (row # rows)) [0..<length row])"

definition computeCost ::
  "real list \<Rightarrow> real list \<Rightarrow> real list list \<Rightarrow> error + (real \<times> real list)" where
  "computeCost currentMID target correctionMatrix =
     (case dot_matrix_vector correctionMatrix currentMID of
        Inl e \<Rightarrow> Inl e
      | Inr product \<Rightarrow>
          (case subtract target product of
             Inl e \<Rightarrow> Inl e
           | Inr difference \<Rightarrow>
               (case dot_matrix_vector (columns_of correctionMatrix) difference of
                  Inl e \<Rightarrow> Inl e
                | Inr gradient \<Rightarrow>
                    Inr (dot difference difference, map (\<lambda>g. g * (- 2)) gradient))))"

text \<open>
  The two library routines the method calls are parameters of the model:
  \<^verbatim>\<open>np.linalg.pinv\<close>, and \<^verbatim>\<open>scipy.optimize.minimize\<close> with the method
  \<^verbatim>\<open>L-BFGS-B\<close>, which gets the cost function, the initial vector and one pair of bounds
  for every component (an upper bound \<open>None\<close> is infinity) and returns \<^verbatim>\<open>res.x\<close>.
  Either may raise.
\<close>

record library =
  lib_pinv :: "real list list \<Rightarrow> error + real list list"
  lib_minimize ::
    "(real list \<Rightarrow> error + (real \<times> real list)) \<Rightarrow> real list \<Rightarrow> (real \<times> real option) list
       \<Rightarrow> error + real list"

text \<open>
  \<^verbatim>\<open>_minimizeCost\<close>: the lower bound 0 and no upper bound, once for every component
  of the initial vector.
\<close>

definition minimizeCost ::
  "library \<Rightarrow> real list \<Rightarrow> real list \<Rightarrow> real list list \<Rightarrow> error + real list" where
  "minimizeCost lib initialMID target correctionMatrix =
     lib_minimize lib (\<lambda>currentMID. computeCost currentMID target correctionMatrix) initialMID
       (replicate (length initialMID) (0, None))"

fun minimize_all ::
  "library \<Rightarrow> real list \<Rightarrow> real list list \<Rightarrow> real list list \<Rightarrow> error + real list list" where
  "minimize_all lib initialMID correctionMatrix [] = Inr []"
| "minimize_all lib initialMID correctionMatrix (targetMID # targets) =
     (case minimizeCost lib initialMID targetMID correctionMatrix of
        Inl e \<Rightarrow> Inl e
      | Inr x \<Rightarrow>
          (case minimize_all lib initialMID correctionMatrix targets of
             Inl e \<Rightarrow> Inl e
           | Inr xs \<Rightarrow> Inr (x # xs)))"

text \<open>
  \<^verbatim>\<open>np.matmul(dfData, P.transpose())\<close> for a data array as wide as \<open>P\<close>: entry
  \<open>(i, j)\<close> is the product of row \<open>i\<close> of the data and row \<open>j\<close> of \<open>P\<close>.
\<close>

definition matmul_transposed :: "real list list \<Rightarrow> real list list \<Rightarrow> real list list" where
  "matmul_transposed A P = map (\<lambda>a. map (\<lambda>p. dot a p) P) A"

definition width :: "real list list \<Rightarrow> nat" where
  "width M = (case M of [] \<Rightarrow> 0 | row # rows \<Rightarrow> length row)"

definition more_clusters_message :: string where
  "more_clusters_message = ''The measure MID has more clusters than the correction matrix.''"

text \<open>
  The two branches compute \<^verbatim>\<open>correctedData\<close>, here the pair of its number of columns
  and its rows; \<open>dfData\<close> is \<open>None\<close> while the variable is unbound. In the branch
  \<^verbatim>\<open>SMC\<close> the pseudo-inverse is computed before \<^verbatim>\<open>dfData\<close> is read, and
  \<^verbatim>\<open>np.matmul\<close> needs the data as wide as the transposed pseudo-inverse is high. In the
  branch \<^verbatim>\<open>LSC\<close>, \<^verbatim>\<open>targetMIDList[0]\<close> raises \<^verbatim>\<open>IndexError\<close> on a frame without
  rows, and \<^verbatim>\<open>np.vstack\<close> needs rows of one length. With any other method
  \<^verbatim>\<open>correctedData\<close> stays unbound.
\<close>

definition corrected_data ::
  "library \<Rightarrow> string \<Rightarrow> real list list \<Rightarrow> nat \<Rightarrow> real list list option
     \<Rightarrow> error + (nat \<times> real list list)" where
  "corrected_data lib method correctionMatrix nCols dfData =
     (if method = ''SMC'' then
        (case lib_pinv lib correctionMatrix of
           Inl e \<Rightarrow> Inl e
         | Inr P \<Rightarrow>
             (case dfData of
                None \<Rightarrow> Inl UnboundLocalError
              | Some dfData \<Rightarrow>
                  if nCols = width P
                  then Inr (length P,
                        map (map (\<lambda>x. if x < 0 then 0 else x)) (matmul_transposed dfData P))
                  else Inl ValueError))
      else if method = ''LSC'' then
        (case dfData of
           None \<Rightarrow> Inl UnboundLocalError
         | Some targetMIDList \<Rightarrow>
             (case targetMIDList of
                [] \<Rightarrow> Inl IndexError
              | first # others \<Rightarrow>
                  (case minimize_all lib (replicate (length first) 0) correctionMatrix
                          targetMIDList of
                     Inl e \<Rightarrow> Inl e
                   | Inr allRes \<Rightarrow>
                       if list_all (\<lambda>x. length x = width allRes) allRes
                       then Inr (width allRes, allRes) else Inl ValueError)))
      else Inl UnboundLocalError)"

text \<open>
  \<^verbatim>\<open>correctForNaturalAbundance\<close>, with what it prints. The matrix is computed anew; its
  shape is \<open>(nRows, nCols)\<close>. Only the \<^verbatim>\<open>else\<close> branch of the size test binds
  \<^verbatim>\<open>dfData\<close>, the data padded with zeros to \<open>nCols\<close> columns. The frame returned has
  the labels of the input and the first \<^verbatim>\<open>dataFrame.shape[1]\<close> columns of
  \<^verbatim>\<open>correctedData\<close>; \<^verbatim>\<open>pd.DataFrame\<close> raises \<^verbatim>\<open>ValueError\<close> when the data has not as
  many columns as there are labels.
\<close>

definition correctForNaturalAbundance ::
  "library \<Rightarrow> NAProcess \<Rightarrow> data_frame \<Rightarrow> string \<Rightarrow> string list \<times> (error + data_frame)" where
  "correctForNaturalAbundance lib self dataFrame method =
     (case computeCorrectionMatrix (self_elementsDict self) (self_atomTracer self)
             (self_NaturalAbundanceDistributions self) (self_purityTracer self) of
        (printed, Inl e) \<Rightarrow> (printed, Inl e)
      | (printed, Inr correctionMatrix) \<Rightarrow>
          (let nCols = width correctionMatrix;
               shape1 = length (df_columns dataFrame);
               printed = printed @ (if nCols < shape1 then [more_clusters_message] else []);
               dfData = (if nCols < shape1 then None
                         else Some (map (\<lambda>row. row @ replicate (nCols - shape1) 0)
                                      (df_values dataFrame)))
           in case corrected_data lib method correctionMatrix nCols dfData of
                Inl e \<Rightarrow> (printed, Inl e)
              | Inr (ncols, correctedData) \<Rightarrow>
                  if min shape1 ncols = shape1
                  then (printed,
                        Inr \<lparr>df_columns = df_columns dataFrame,
                             df_values = map (take shape1) correctedData\<rparr>)
                  else (printed, Inl ValueError)))"

text \<open>
  The table covers a composition when every element that is convolved (not the tracer,
  count above 0) has a non-empty distribution in it.
\<close>

definition distributions_known ::
  "(string \<times> nat) list \<Rightarrow> string \<Rightarrow> (string \<times> real list) list \<Rightarrow> bool" where
  "distributions_known elementDict atomTracer NADistributions =
     list_all (\<lambda>(atom, n). atom = atomTracer \<or> n = 0 \<or>
                 (case map_of NADistributions atom of None \<Rightarrow> False | Some d \<Rightarrow> d \<noteq> []))
       elementDict"

text \<open>
  Bounds are feasible when no upper bound lies below its lower bound, and a vector is
  within the bounds when it has one component for every pair and each component lies
  between the two (an upper bound \<open>None\<close> is infinity).
\<close>

definition feasible :: "(real \<times> real option) list \<Rightarrow> bool" where
  "feasible bounds = list_all (\<lambda>(lo, hi). case hi of None \<Rightarrow> True | Some h \<Rightarrow> lo \<le> h) bounds"

definition within_bounds :: "real list \<Rightarrow> (real \<times> real option) list \<Rightarrow> bool" where
  "within_bounds x bounds =
     list_all2 (\<lambda>v (lo, hi). lo \<le> v \<and> (case hi of None \<Rightarrow> True | Some h \<Rightarrow> v \<le> h)) x bounds"

text \<open>
  What is assumed of the library for a frame to be returned: the pseudo-inverse of a
  non-empty array of \<open>r\<close> rows and \<open>c\<close> columns is returned with \<open>c\<close> rows and \<open>r\<close>
  columns, and the minimizer, given feasible bounds, one pair for every component of the
  initial vector, returns a vector as long as the initial one whenever the cost function
  returns a value on the vectors of that length.
\<close>

definition library_contract :: "library \<Rightarrow> bool" where
  "library_contract lib =
     ((\<forall>M. M \<noteq> [] \<longrightarrow>
          (\<exists>P. lib_pinv lib M = Inr P \<and> length P = width M \<and>
               (\<forall>row\<in>set P. length row = length M)))
      \<and> (\<forall>cost x0 bounds.
            length bounds = length x0 \<and> feasible bounds
            \<and> (\<forall>x. length x = length x0 \<longrightarrow> (\<exists>r. cost x = Inr r)) \<longrightarrow>
            (\<exists>x. lib_minimize lib cost x0 bounds = Inr x \<and> length x = length x0)))"

text \<open>
  What is assumed of \<^verbatim>\<open>L-BFGS-B\<close> for the sign of the result: a vector it returns is
  within the bounds it was given. (The method projects every iterate onto the box.)
\<close>

definition bounds_kept :: "library \<Rightarrow> bool" where
  "bounds_kept lib =
     (\<forall>cost x0 bounds x. lib_minimize lib cost x0 bounds = Inr x \<longrightarrow> within_bounds x bounds)"

text \<open>
  A library that keeps both contracts without computing: the pseudo-inverse is replaced
  by the zero array of its shape, and the minimizer evaluates the cost once and returns
  the initial vector moved into the bounds, or raises when the bounds do not fit. On a
  frame of zeros this agrees with the real routines: the product of zeros with any
  array is zero, and the zero vector already minimizes the cost.
\<close>

definition clip :: "real \<Rightarrow> real \<times> real option \<Rightarrow> real" where
  "clip v bound = (case bound of (lo, hi) \<Rightarrow> max lo (case hi of None \<Rightarrow> v | Some h \<Rightarrow> min v h))"

definition zero_library :: library where
  "zero_library =
     \<lparr>lib_pinv = (\<lambda>M. Inr (replicate (width M) (replicate (length M) 0))),
      lib_minimize = (\<lambda>cost x0 bounds.
         if length bounds = length x0 \<and> feasible bounds then
           (case cost x0 of Inl e \<Rightarrow> Inl e | Inr r \<Rightarrow> Inr (map2 clip x0 bounds))
         else Inl ValueError)\<rparr>"



text \<open>Frames of zeros with two and with thirty-six isotopologue columns, one sample.\<close>

definition frame_of_zeros :: "nat \<Rightarrow> data_frame" where
  "frame_of_zeros k =
     \<lparr>df_columns = map (\<lambda>i. ''C16:0 (270) M.'' @ str_nat i) [0..<k],
      df_values = [replicate k 0]\<rparr>"


subsection \<open>Standard curves: \<^verbatim>\<open>computeStandardFits\<close> and the quantification\<close>

text \<open>
  The cells of the tables of \<^verbatim>\<open>MSDataContainer\<close> can be \<^verbatim>\<open>NaN\<close>, and the
  quantification divides by a fitted slope, so the floats of this part carry the
  non-finite values and the sign of a zero: \<open>Finite 0\<close> is \<^verbatim>\<open>+0.0\<close> and \<open>NegZero\<close> is
  \<^verbatim>\<open>-0.0\<close>. Finite values are exact reals; rounding, overflow and underflow are not
  modelled. \<open>float_neg\<close> is the sign bit and \<open>float_val\<close> the value of a finite float.
\<close>

datatype float = Finite real | NegZero | PosInf | NegInf | NaN

definition float_neg :: "float \<Rightarrow> bool" where
  "float_neg a = (case a of Finite x \<Rightarrow> x < 0 | NegZero \<Rightarrow> True | NegInf \<Rightarrow> True
                  | PosInf \<Rightarrow> False | NaN \<Rightarrow> False)"

definition float_val :: "float \<Rightarrow> real option" where
  "float_val a = (case a of Finite x \<Rightarrow> Some x | NegZero \<Rightarrow> Some 0 | PosInf \<Rightarrow> None
                  | NegInf \<Rightarrow> None | NaN \<Rightarrow> None)"

definition signed_zero :: "bool \<Rightarrow> float" where
  "signed_zero negative = (if negative then NegZero else Finite 0)"

definition signed_inf :: "bool \<Rightarrow> float" where
  "signed_inf negative = (if negative then NegInf else PosInf)"

text \<open>
  Subtraction: a difference that is exactly zero is \<^verbatim>\<open>+0.0\<close>, except
  \<^verbatim>\<open>-0.0 - (+0.0)\<close>, which is \<^verbatim>\<open>-0.0\<close>.
\<close>

fun float_sub :: "float \<Rightarrow> float \<Rightarrow> float" where
  "float_sub NaN b = NaN"
| "float_sub a NaN = NaN"
| "float_sub PosInf PosInf = NaN"
| "float_sub NegInf NegInf = NaN"
| "float_sub PosInf b = PosInf"
| "float_sub NegInf b = NegInf"
| "float_sub a PosInf = NegInf"
| "float_sub a NegInf = PosInf"
| "float_sub NegZero (Finite y) = (if y = 0 then NegZero else Finite (- y))"
| "float_sub NegZero NegZero = Finite 0"
| "float_sub (Finite x) NegZero = Finite x"
| "float_sub (Finite x) (Finite y) = Finite (x - y)"

text \<open>
  Division as numpy does it on floats, without an exception: the sign of the quotient
  is the exclusive or of the two signs; a zero divided by a zero and an infinity
  divided by an infinity are \<^verbatim>\<open>NaN\<close>.
\<close>

definition float_div :: "float \<Rightarrow> float \<Rightarrow> float" where
  "float_div a b =
     (let negative = (float_neg a \<noteq> float_neg b)
      in if a = NaN \<or> b = NaN then NaN
         else (case float_val a of
                 None \<Rightarrow>
                   (case float_val b of
                      None \<Rightarrow> NaN
                    | Some y \<Rightarrow> signed_inf negative)
               | Some x \<Rightarrow>
                   (case float_val b of
                      None \<Rightarrow> signed_zero negative
                    | Some y \<Rightarrow>
                        if y = 0 then (if x = 0 then NaN else signed_inf negative)
                        else if x = 0 then signed_zero negative
                        else Finite (x / y))))"

fun float_square :: "float \<Rightarrow> float" where
  "float_square (Finite x) = Finite (x * x)"
| "float_square NegZero = Finite 0"
| "float_square NaN = NaN"
| "float_square a = PosInf"

text \<open>
  A table of floats: its number of rows (\<^verbatim>\<open>len\<close>) and its columns in order, each
  with its values. \<^verbatim>\<open>dataDf_norm\<close> stands for the data columns of the normalised table
  (from \<^verbatim>\<open>_dataStartIdx\<close> on) and \<^verbatim>\<open>SampleName\<close> for its column of sample names, a
  missing name being \<open>None\<close>. \<^verbatim>\<open>_maskFAMES\<close> is set by the first call of
  \<^verbatim>\<open>computeStandardFits\<close> only: \<open>None\<close> is the attribute that does not exist yet.
\<close>

record frame =
  fr_len :: nat
  fr_columns :: "(string \<times> float list) list"

record mask_entry =
  originalMask :: "bool list"
  newMask :: "bool list option"

record MSDataContainer =
  SampleName :: "string option list"
  dataDf_norm :: frame
  standardDf_nMoles :: frame
  maskFAMES :: "(string \<times> mask_entry) list option"
  standardDf_fitResults :: "(string \<times> float \<times> float \<times> float) list"

text \<open>
  \<^verbatim>\<open>getStandardAbsorbance\<close>: the rows whose sample name matches \<^verbatim>\<open>S[0-9]+\<close> at its
  start (\<^verbatim>\<open>na=False\<close>: a missing name does not match).
\<close>

definition is_standard :: "string option \<Rightarrow> bool" where
  "is_standard name =
     (case name of
        None \<Rightarrow> False
      | Some s \<Rightarrow> (case s of c # d # rest \<Rightarrow> c = CHR ''S'' \<and> is_digit d | _ \<Rightarrow> False))"

definition boolean_index :: "bool list \<Rightarrow> 'a list \<Rightarrow> 'a list" where
  "boolean_index mask' vals = map snd (filter fst (zip mask' vals))"

definition getStandardAbsorbance :: "MSDataContainer \<Rightarrow> frame" where
  "getStandardAbsorbance self =
     (let matchedLocations = map is_standard (SampleName self)
      in \<lparr>fr_len = length (filter id matchedLocations),
          fr_columns = map (\<lambda>(col, vals). (col, boolean_index matchedLocations vals))
                           (fr_columns (dataDf_norm self))\<rparr>)"

text \<open>
  \<^verbatim>\<open>_checkIfParentalIonDataExistsFor\<close>. The name of the ion must start with a chain,
  a blank and a mass in brackets; the columns of the standards that start with the same
  chain are the candidates, each of them must carry a mass in brackets as well (otherwise
  \<^verbatim>\<open>re.match\<close> gives \<^verbatim>\<open>None\<close>, whose \<^verbatim>\<open>groups\<close> raises, and the bare
  \<^verbatim>\<open>except\<close> answers \<^verbatim>\<open>[False]\<close>), and the last of the heaviest is returned
  (\<^verbatim>\<open>sorted\<close> is stable). \<open>None\<close> stands for \<^verbatim>\<open>[False]\<close>.
\<close>

definition match_mass :: "string \<Rightarrow> string option" where
  "match_mass s =
     (case s of
        blank # bracket # rest \<Rightarrow>
          if blank = CHR '' '' \<and> bracket = CHR ''('' \<and> takeWhile is_digit rest \<noteq> []
             \<and> take 1 (dropWhile is_digit rest) = '')''
          then Some (takeWhile is_digit rest) else None
      | _ \<Rightarrow> None)"

definition match_ion :: "string \<Rightarrow> (string \<times> string) option" where
  "match_ion ion =
     (case match_chain ion of
        None \<Rightarrow> None
      | Some (c, d) \<Rightarrow>
          (let carbon = ''C'' @ c @ '':'' @ d
           in case match_mass (drop (length carbon) ion) of
                None \<Rightarrow> None
              | Some mass \<Rightarrow> Some (carbon, mass)))"

definition checkIfParentalIonDataExistsFor :: "string list \<Rightarrow> string \<Rightarrow> string option" where
  "checkIfParentalIonDataExistsFor columns ion =
     (case match_ion ion of
        None \<Rightarrow> None
      | Some (carbon, mass) \<Rightarrow>
          (let matchingCarbons = filter (\<lambda>col. take (length carbon) col = carbon) columns
           in if 0 < length matchingCarbons then
                (case those (map (\<lambda>col. match_mass (drop (length carbon) col)) matchingCarbons) of
                   None \<Rightarrow> None
                 | Some masses \<Rightarrow>
                     (let massOfMatchingCarbons =
                            zip [0..<length matchingCarbons] (map int_of_digits masses);
                          idxHeaviest = fst (last (sort_key snd massOfMatchingCarbons))
                      in Some (matchingCarbons ! idxHeaviest)))
              else None))"

text \<open>
  The mask of a column: a standard counts when its quantity and its signal are no
  \<^verbatim>\<open>NaN\<close> and the signal is not 0. With \<^verbatim>\<open>useMask\<close> the stored mask is read instead,
  the new one if there is one; the second read, in the \<^verbatim>\<open>except\<close> branch, raises if
  the attribute or the column is missing.
\<close>

definition original_mask :: "float list \<Rightarrow> float list \<Rightarrow> bool list" where
  "original_mask xvals yvals =
     (let mask1 = map (\<lambda>(x, y). \<not> (x = NaN \<or> y = NaN)) (zip xvals yvals);
          mask2 = map (\<lambda>(x, y). \<not> (x = NaN \<or> (y = Finite 0 \<or> y = NegZero))) (zip xvals yvals)
      in map (\<lambda>(m1, m2). m1 \<and> m2) (zip mask1 mask2))"

definition stored_mask :: "(string \<times> mask_entry) list option \<Rightarrow> string \<Rightarrow> error + bool list" where
  "stored_mask masks col =
     (case masks of
        None \<Rightarrow> Inl AttributeError
      | Some d \<Rightarrow>
          (case map_of d col of
             None \<Rightarrow> Inl KeyError
           | Some entry \<Rightarrow>
               (case newMask entry of
                  Some mask' \<Rightarrow> Inr mask'
                | None \<Rightarrow> Inr (originalMask entry))))"

text \<open>
  An assignment \<^verbatim>\<open>d[k] = v\<close> to a dictionary, or of a column to a table: an existing
  key keeps its place, a new one comes last.
\<close>

fun dict_set :: "('k \<times> 'v) list \<Rightarrow> 'k \<Rightarrow> 'v \<Rightarrow> ('k \<times> 'v) list" where
  "dict_set [] k v = [(k, v)]"
| "dict_set ((k', v') # d) k v = (if k' = k then (k, v) # d else (k', v') # dict_set d k v)"

text \<open>
  \<^verbatim>\<open>xvals[mask]\<close> with a list of booleans: numpy raises \<^verbatim>\<open>IndexError\<close> unless the
  mask has the length of the array. An empty list is not a mask for numpy but an empty
  list of positions: it selects nothing, whatever the length of the array.
\<close>

definition np_index :: "float list \<Rightarrow> bool list \<Rightarrow> error + float list" where
  "np_index vals mask' =
     (if mask' = [] then Inr []
      else if length mask' = length vals then Inr (boolean_index mask' vals)
      else Inl IndexError)"

text \<open>
  The test of line 757, \<^verbatim>\<open>if ((len(xvalsToFit)<3)|len(yvalsToFit)<3)\<close>. In Python
  \<^verbatim>\<open>|\<close> binds tighter than \<^verbatim>\<open><\<close>, so the test is
  \<^verbatim>\<open>((len(xvalsToFit)<3) | len(yvalsToFit)) < 3\<close>: the bitwise or of a boolean (0 or 1)
  and a length, compared with 3.
\<close>

unbundle bit_operations_syntax

definition fit_skipped :: "nat \<Rightarrow> nat \<Rightarrow> bool" where
  "fit_skipped len_xvalsToFit len_yvalsToFit =
     ((of_bool (len_xvalsToFit < 3) OR int len_yvalsToFit) < 3)"

definition parental_message :: "string \<Rightarrow> string \<Rightarrow> string" where
  "parental_message col parentalIon =
     ''Standard data for '' @ col @ '' were missing but parental ion '' @ parentalIon
       @ '' data were used for the fit''"

definition no_standard_message :: "string \<Rightarrow> string" where
  "no_standard_message col =
     ''No standard data were found for '' @ col @ '', no quantification possible for it.''"

definition skipped_message :: "string \<Rightarrow> string" where
  "skipped_message col = ''Standard fit of '' @ col @ '' skipped (not enough values)''"

text \<open>
  \<^verbatim>\<open>scipy.stats.linregress\<close> is a parameter: a function from the two arrays to an
  exception or to slope, intercept and \<^verbatim>\<open>rvalue\<close>. The state of the loop over the
  columns is what has been printed, \<^verbatim>\<open>self._maskFAMES\<close> and \<^verbatim>\<open>fitDf\<close>; what was
  printed before an exception is not kept. \<open>fit_values\<close> is the body of the loop from
  line 740 on, \<open>fit_column\<close> the whole body.
\<close>

type_synonym linregress = "float list \<Rightarrow> float list \<Rightarrow> error + float \<times> float \<times> float"

type_synonym fit_state =
  "string list \<times> (string \<times> mask_entry) list option \<times> (string \<times> float \<times> float \<times> float) list"

definition fit_values ::
  "linregress \<Rightarrow> bool \<Rightarrow> string \<Rightarrow> float list \<Rightarrow> float list \<Rightarrow> fit_state \<Rightarrow> error + fit_state" where
  "fit_values linregress useMask col xvals yvals st =
     (case st of (printed, masks, fitDf) \<Rightarrow>
        (case (if \<not> useMask then
                 (let mask' = original_mask xvals yvals
                  in case masks of
                       None \<Rightarrow> Inl AttributeError
                     | Some d \<Rightarrow>
                         Inr (mask', Some (dict_set d col \<lparr>originalMask = mask', newMask = None\<rparr>)))
               else
                 (case stored_mask masks col of
                    Inl e \<Rightarrow> Inl e
                  | Inr mask' \<Rightarrow> Inr (mask', masks))) of
           Inl e \<Rightarrow> Inl e
         | Inr (mask', masks') \<Rightarrow>
             (case np_index xvals mask' of
                Inl e \<Rightarrow> Inl e
              | Inr xvalsToFit \<Rightarrow>
                  (case np_index yvals mask' of
                     Inl e \<Rightarrow> Inl e
                   | Inr yvalsToFit \<Rightarrow>
                       if fit_skipped (length xvalsToFit) (length yvalsToFit) then
                         Inr (printed @ [skipped_message col], masks', fitDf)
                       else
                         (case linregress xvalsToFit yvalsToFit of
                            Inl e \<Rightarrow> Inl e
                          | Inr (slope, intercept, rvalue) \<Rightarrow>
                              Inr (printed, masks',
                                   dict_set fitDf col (slope, intercept, float_square rvalue)))))))"

definition fit_column ::
  "linregress \<Rightarrow> bool \<Rightarrow> frame \<Rightarrow> string \<Rightarrow> float list \<Rightarrow> fit_state \<Rightarrow> error + fit_state" where
  "fit_column linregress useMask nMoles col yvals st =
     (case map_of (fr_columns nMoles) col of
        Some xvals \<Rightarrow> fit_values linregress useMask col xvals yvals st
      | None \<Rightarrow>
          (case checkIfParentalIonDataExistsFor (map fst (fr_columns nMoles)) col of
             Some parentalIon \<Rightarrow>
               (case map_of (fr_columns nMoles) parentalIon of
                  None \<Rightarrow> Inl KeyError
                | Some xvals \<Rightarrow>
                    (case st of (printed, masks, fitDf) \<Rightarrow>
                       fit_values linregress useMask col xvals yvals
                         (printed @ [parental_message col parentalIon], masks, fitDf)))
           | None \<Rightarrow>
               (case st of (printed, masks, fitDf) \<Rightarrow>
                  Inr (printed @ [no_standard_message col], masks, fitDf))))"

fun fit_loop ::
  "linregress \<Rightarrow> bool \<Rightarrow> frame \<Rightarrow> (string \<times> float list) list \<Rightarrow> fit_state \<Rightarrow> error + fit_state" where
  "fit_loop linregress useMask nMoles [] st = Inr st"
| "fit_loop linregress useMask nMoles ((col, yvals) # cols) st =
     (case fit_column linregress useMask nMoles col yvals st of
        Inl e \<Rightarrow> Inl e
      | Inr st' \<Rightarrow> fit_loop linregress useMask nMoles cols st')"

text \<open>
  \<^verbatim>\<open>computeStandardFits\<close> returns what it printed, the object with its masks and fits
  updated, and the table of the fits: for a column its slope, intercept and \<open>R\<^sup>2\<close>.
\<close>

definition computeStandardFits ::
  "linregress \<Rightarrow> MSDataContainer \<Rightarrow> bool
     \<Rightarrow> error + string list \<times> MSDataContainer \<times> (string \<times> float \<times> float \<times> float) list" where
  "computeStandardFits linregress self useMask =
     (let stdAbsorbance = getStandardAbsorbance self
      in if fr_len stdAbsorbance = fr_len (standardDf_nMoles self) then
           (case fit_loop linregress useMask (standardDf_nMoles self) (fr_columns stdAbsorbance)
                   ([], if \<not> useMask then Some [] else maskFAMES self, []) of
              Inl e \<Rightarrow> Inl e
            | Inr (printed, masks, fitDf) \<Rightarrow>
                Inr (printed, self\<lparr>maskFAMES := masks, standardDf_fitResults := fitDf\<rparr>, fitDf))
         else Inl AssertionError)"

text \<open>
  \<^verbatim>\<open>computeQuantificationFromStandardFits\<close>: one column for every column of the table
  of fits, \<^verbatim>\<open>(self.dataDf_norm[col] - intercept) / slope\<close>. The three columns that
  identify the samples, which the source puts in front, are left out.
\<close>

fun quantification_loop ::
  "frame \<Rightarrow> (string \<times> float \<times> float \<times> float) list \<Rightarrow> (string \<times> float list) list
     \<Rightarrow> error + (string \<times> float list) list" where
  "quantification_loop dataDf [] resultsDf = Inr resultsDf"
| "quantification_loop dataDf ((col, slope, intercept, r2) # fits) resultsDf =
     (case map_of (fr_columns dataDf) col of
        None \<Rightarrow> Inl KeyError
      | Some vals \<Rightarrow>
          quantification_loop dataDf fits
            (dict_set resultsDf col (map (\<lambda>v. float_div (float_sub v intercept) slope) vals)))"

definition computeQuantificationFromStandardFits ::
  "linregress \<Rightarrow> MSDataContainer \<Rightarrow> bool
     \<Rightarrow> error + string list \<times> MSDataContainer \<times> (string \<times> float list) list" where
  "computeQuantificationFromStandardFits linregress self useMask =
     (case computeStandardFits linregress self useMask of
        Inl e \<Rightarrow> Inl e
      | Inr (printed, self', standardFits) \<Rightarrow>
          (case quantification_loop (dataDf_norm self') standardFits [] of
             Inl e \<Rightarrow> Inl e
           | Inr resultsDf \<Rightarrow> Inr (printed, self', resultsDf)))"

text \<open>
  A run with four standards and one sample. The first cluster has a signal in two of
  the standards, the second in one, the third in three.
\<close>

definition standards_example :: MSDataContainer where
  "standards_example =
     \<lparr>SampleName = [Some ''S1'', Some ''S2'', Some ''S3'', Some ''S4'', Some ''Liver1''],
      dataDf_norm =
        \<lparr>fr_len = 5,
         fr_columns =
           [(''C16:0 (270)'', [Finite 0, Finite 0, Finite 12, Finite 25, Finite 18]),
            (''C18:0 (298)'', [Finite 0, Finite 0, Finite 0, Finite 9, Finite 4]),
            (''C18:1 (296)'', [Finite 0, Finite 3, Finite 5, Finite 11, Finite 6])]\<rparr>,
      standardDf_nMoles =
        \<lparr>fr_len = 4,
         fr_columns =
           [(''C16:0 (270)'', [Finite 1, Finite 2, Finite 4, Finite 8]),
            (''C18:0 (298)'', [Finite 1, Finite 2, Finite 4, Finite 8]),
            (''C18:1 (296)'', [Finite 1, Finite 2, Finite 4, Finite 8])]\<rparr>,
      maskFAMES = None,
      standardDf_fitResults = []\<rparr>"

definition example_masks_stored :: "(string \<times> mask_entry) list" where
  "example_masks_stored =
     [(''C16:0 (270)'', \<lparr>originalMask = [False, False, True, True], newMask = None\<rparr>),
      (''C18:0 (298)'', \<lparr>originalMask = [False, False, False, True], newMask = None\<rparr>),
      (''C18:1 (296)'', \<lparr>originalMask = [False, True, True, True], newMask = None\<rparr>)]"

section \<open>Ion grouping: lemmas\<close>

lemma concat_groupby: "concat (map snd (groupby key xs)) = xs"
  by (induction key xs rule: groupby.induct) auto


lemma split_loop_concat:
  "sorted_wrt (<) idx \<Longrightarrow> (\<forall>e\<in>set idx. start \<le> e) \<Longrightarrow>
   concat (map snd (split_loop key grp idx start i)) = drop start grp"
proof (induction idx arbitrary: start i)
  case Nil
  then show ?case by simp
next
  case (Cons e idx)
  have "concat (map snd (split_loop key grp idx (e + 1) (i + 1))) = drop (e + 1) grp"
    using Cons.prems by (intro Cons.IH) auto
  moreover have "start \<le> e" using Cons.prems by simp
  then have "take (e + 1 - start) (drop start grp) @ drop (e + 1) grp = drop start grp"
    by (metis append_take_drop_id drop_drop le_add_diff_inverse2 trans_le_add1)
  ultimately show ?case by simp
qed

lemma unit_steps_nth:
  "unit_steps ms \<longleftrightarrow> (\<forall>k. Suc k < length ms \<longrightarrow> ms ! Suc k - ms ! k = 1)"
proof (induction ms rule: unit_steps.induct)
  case (1 a b ms)
  show ?case
  proof
    assume L: "unit_steps (a # b # ms)"
    show "\<forall>k. Suc k < length (a # b # ms) \<longrightarrow> (a # b # ms) ! Suc k - (a # b # ms) ! k = 1"
    proof (intro allI impI)
      fix k assume "Suc k < length (a # b # ms)"
      then show "(a # b # ms) ! Suc k - (a # b # ms) ! k = 1"
        using L 1 by (cases k) auto
    qed
  next
    assume R: "\<forall>k. Suc k < length (a # b # ms) \<longrightarrow> (a # b # ms) ! Suc k - (a # b # ms) ! k = 1"
    have "b - a = 1" using R[rule_format, of 0] by simp
    moreover have "\<forall>k. Suc k < length (b # ms) \<longrightarrow> (b # ms) ! Suc k - (b # ms) ! k = 1"
      using R by (metis Suc_less_eq length_Cons nth_Cons_Suc)
    ultimately show "unit_steps (a # b # ms)" using 1 by simp
  qed
qed auto

lemma differences_nth:
  "k < length ms - 1 \<Longrightarrow> differences ms ! k = ms ! Suc k - ms ! k"
  by (simp add: differences_def nth_tl nth_butlast)

lemma length_differences: "length (differences ms) = length ms - 1"
  by (simp add: differences_def)

lemma where_not_one_sorted: "sorted_wrt (<) (where_not_one ds)"
  by (simp add: where_not_one_def sorted_wrt_filter)

lemma where_not_one_set: "set (where_not_one ds) = {k. k < length ds \<and> ds ! k \<noteq> 1}"
  by (auto simp: where_not_one_def)


lemma split_loop_not_Nil: "split_loop key g idx start i \<noteq> []"
  by (cases idx) auto

lemma split_loop_clusters:
  assumes "sorted_wrt (<) idx"
    and "\<forall>e\<in>set idx. start \<le> e \<and> Suc e < length g"
    and "\<forall>k. start \<le> k \<longrightarrow> Suc k < length g \<longrightarrow> (k \<in> set idx \<longleftrightarrow> ms ! Suc k - ms ! k \<noteq> 1)"
    and "start < length g" and "ms = map f g"
  shows "list_all (\<lambda>s. s \<noteq> [] \<and> unit_steps (map f s)) (map snd (split_loop key g idx start i))
       \<and> jumps_between (map (\<lambda>p. map f (snd p)) (split_loop key g idx start i))
       \<and> hd (map f (snd (hd (split_loop key g idx start i)))) = ms ! start"
  using assms
proof (induction idx arbitrary: start i)
  case Nil
  have ne: "drop start g \<noteq> []" using Nil.prems by simp
  have "unit_steps (map f (drop start g))"
    unfolding unit_steps_nth
  proof (intro allI impI)
    fix k assume k: "Suc k < length (map f (drop start g))"
    then have "Suc (start + k) < length g" by simp
    then have "ms ! Suc (start + k) - ms ! (start + k) = 1"
      using Nil.prems(3) by simp
    then show "map f (drop start g) ! Suc k - map f (drop start g) ! k = 1"
      using k Nil.prems(5) by (simp add: drop_map[symmetric])
  qed
  moreover have "hd (map f (drop start g)) = ms ! start"
    using Nil.prems by (simp add: hd_drop_conv_nth hd_map[OF ne])
  ultimately show ?case using ne by simp
next
  case (Cons e idx)
  let ?s = "take (e + 1 - start) (drop start g)"
  let ?rest = "split_loop key g idx (e + 1) (i + 1)"
  have se: "start \<le> e" and eg: "Suc e < length g" using Cons.prems(2) by auto
  have ne: "?s \<noteq> []" using se Cons.prems(4) by simp
  have len: "length ?s = e + 1 - start" using eg by simp
  have above: "\<forall>e'\<in>set idx. e < e'" using Cons.prems(1) by simp
  have IH: "list_all (\<lambda>s. s \<noteq> [] \<and> unit_steps (map f s)) (map snd ?rest)
       \<and> jumps_between (map (\<lambda>p. map f (snd p)) ?rest)
       \<and> hd (map f (snd (hd ?rest))) = ms ! (e + 1)"
  proof (rule Cons.IH)
    show "sorted_wrt (<) idx" using Cons.prems(1) by simp
    show "\<forall>e'\<in>set idx. e + 1 \<le> e' \<and> Suc e' < length g"
      using above Cons.prems(2) by auto
    show "\<forall>k. e + 1 \<le> k \<longrightarrow> Suc k < length g \<longrightarrow> (k \<in> set idx \<longleftrightarrow> ms ! Suc k - ms ! k \<noteq> 1)"
    proof (intro allI impI)
      fix k assume k: "e + 1 \<le> k" "Suc k < length g"
      then have "start \<le> k" "k \<noteq> e" using se by auto
      then show "k \<in> set idx \<longleftrightarrow> ms ! Suc k - ms ! k \<noteq> 1"
        using Cons.prems(3)[rule_format, of k] k by simp
    qed
    show "e + 1 < length g" using eg by simp
    show "ms = map f g" by fact
  qed
  have us: "unit_steps (map f ?s)"
    unfolding unit_steps_nth
  proof (intro allI impI)
    fix k assume k: "Suc k < length (map f ?s)"
    then have "Suc k < e + 1 - start" using len by simp
    then have k': "start + k < e" by arith
    then have "start + k \<notin> set (e # idx)" using above by auto
    moreover have "Suc (start + k) < length g" using k' eg by simp
    ultimately have "ms ! Suc (start + k) - ms ! (start + k) = 1"
      using Cons.prems(3) by (metis le_add1)
    then show "map f ?s ! Suc k - map f ?s ! k = 1"
      using k k' eg Cons.prems(5) by simp
  qed
  have last_s: "last (map f ?s) = ms ! e"
  proof -
    have "last (map f ?s) = map f ?s ! (length ?s - 1)"
      using ne by (simp add: last_conv_nth)
    also have "\<dots> = ms ! e" using len se eg Cons.prems(5) by simp
    finally show ?thesis .
  qed
  obtain t ts where rest: "?rest = t # ts"
    using split_loop_not_Nil[of key g idx "e + 1" "i + 1"] by (cases ?rest) auto
  have t_ne: "snd t \<noteq> []" using IH rest by simp
  have hd_t: "hd (map f (snd t)) = ms ! Suc e" using IH rest by simp
  have jump: "ms ! Suc e - ms ! e \<noteq> 1"
    using Cons.prems(3) se eg by (metis list.set_intros(1))
  have "jumps_between (map (\<lambda>p. map f (snd p)) (split_loop key g (e # idx) start i))"
    using IH rest ne t_ne hd_t last_s jump by simp
  moreover have "hd (map f ?s) = ms ! start"
    using ne Cons.prems(4,5) by (simp add: hd_map hd_conv_nth)
  ultimately show ?case using IH ne us by simp
qed


lemma unit_steps_offset:
  "unit_steps ms \<Longrightarrow> n < length ms \<Longrightarrow> ms ! n = ms ! 0 + int n"
proof (induction n)
  case 0
  then show ?case by simp
next
  case (Suc n)
  from Suc.prems have "ms ! Suc n - ms ! n = 1" by (simp only: unit_steps_nth)
  moreover have "ms ! n = ms ! 0 + int n" using Suc by simp
  ultimately show ?case by simp
qed

lemma groupIonNames_nth:
  "groupIonNames c =
     map (\<lambda>n. (fst (c ! n), ionName (ionMass (snd (hd c))) n (snd (c ! n)))) [0..<length c]"
proof (cases c)
  case Nil
  then show ?thesis by simp
next
  case (Cons first rest)
  show ?thesis
    unfolding Cons groupIonNames.simps enumerate_eq_zip
    by (rule nth_equalityI) (auto simp: split_beta simp del: upt_Suc)
qed

lemma unit_steps_labelled:
  assumes "c \<noteq> []" and "unit_steps (map (\<lambda>ion. ionMass (snd ion)) c)"
  shows "labelled_from_lowest c"
proof -
  let ?ms = "map (\<lambda>ion. ionMass (snd ion)) c"
  have "?ms = map (\<lambda>n. ionMass (snd (hd c)) + int n) [0..<length c]"
  proof (rule nth_equalityI)
    show "length ?ms = length (map (\<lambda>n. ionMass (snd (hd c)) + int n) [0..<length c])" by simp
  next
    fix n assume n: "n < length ?ms"
    have "?ms ! n = ?ms ! 0 + int n" using unit_steps_offset[OF assms(2) n] .
    then show "?ms ! n = map (\<lambda>n. ionMass (snd (hd c)) + int n) [0..<length c] ! n"
      using n assms(1) by (simp add: hd_conv_nth)
  qed
  then show ?thesis unfolding labelled_from_lowest_def using groupIonNames_nth by blast
qed

lemma split_group_concat: "concat (map snd (split_group key grp)) = grp"
proof -
  have "concat (map snd (split_loop key grp (where_not_one ds) 0 0)) = grp" for ds
    using split_loop_concat[OF where_not_one_sorted, of ds 0 key grp 0] by simp
  then show ?thesis by (simp add: split_group_def Let_def)
qed

lemma split_group_clusters:
  assumes "grp \<noteq> []"
  shows "list_all (\<lambda>c. c \<noteq> [] \<and> unit_steps (map (\<lambda>ion. ionMass (snd ion)) c))
           (map snd (split_group key grp))
         \<and> jumps_between (map (\<lambda>p. map (\<lambda>ion. ionMass (snd ion)) (snd p)) (split_group key grp))"
proof -
  let ?f = "\<lambda>ion::indexed_ion. ionMass (snd ion)"
  let ?ms = "map ?f grp"
  let ?idx = "where_not_one (differences ?ms)"
  have iff: "\<forall>k. 0 \<le> k \<longrightarrow> Suc k < length grp \<longrightarrow> (k \<in> set ?idx \<longleftrightarrow> ?ms ! Suc k - ?ms ! k \<noteq> 1)"
    by (auto simp: where_not_one_set length_differences differences_nth)
  have bound: "\<forall>e\<in>set ?idx. 0 \<le> e \<and> Suc e < length grp"
    by (auto simp: where_not_one_set length_differences)
  show ?thesis
  proof (cases "?idx = []")
    case True
    have "unit_steps ?ms"
      unfolding unit_steps_nth
    proof (intro allI impI)
      fix k assume "Suc k < length ?ms"
      then have "Suc k < length grp" by simp
      then show "?ms ! Suc k - ?ms ! k = 1" using iff True by (metis empty_iff le0 list.set(1))
    qed
    then show ?thesis using True assms by (simp add: split_group_def Let_def)
  next
    case False
    then have "length grp \<noteq> 1" using bound by (cases ?idx) auto
    then have eq: "split_group key grp = split_loop key grp ?idx 0 0"
      using False by (simp add: split_group_def Let_def)
    have "0 < length grp" using assms by simp
    from split_loop_clusters[OF where_not_one_sorted bound iff this refl, of key 0]
    show ?thesis unfolding eq by simp
  qed
qed

lemma mset_concat_sort_key: "mset (concat (map (sort_key f) xss)) = mset (concat xss)"
  by (induction xss) auto

lemma finalGroups_concat: "concat (map snd (finalGroups groups)) = concat (map snd groups)"
  by (induction groups rule: finalGroups.induct) (simp_all add: split_group_concat)

lemma groupsIntraSorted_mset:
  "mset (concat (map snd (groupsIntraSorted ionsDetected))) = mset (enumerate 0 ionsDetected)"
proof -
  have "map snd (groupsIntraSorted ionsDetected) =
        map (sort_key (\<lambda>ion. ionMass (snd ion)))
          (map snd (groupby (\<lambda>ion. ionDescription (snd ion)) (enumerate 0 ionsDetected)))"
    by (simp add: groupsIntraSorted_def)
  then show ?thesis by (simp only: mset_concat_sort_key concat_groupby)
qed








section \<open>Formula strings: lemmas\<close>

lemma digit_char_props:
  "\<forall>d\<in>set [0..<10]. is_digit (digit_char d) \<and> digit_val (digit_char d) = d"
  by code_simp

lemma digit_char_digit: "d < 10 \<Longrightarrow> is_digit (digit_char d)"
  using digit_char_props by simp

lemma digit_val_digit_char: "d < 10 \<Longrightarrow> digit_val (digit_char d) = d"
  using digit_char_props by simp

lemma str_nat_digits: "\<forall>c\<in>set (str_nat n). is_digit c"
proof (induction n rule: str_nat.induct)
  case (1 n)
  show ?case
  proof (cases "n < 10")
    case True
    then show ?thesis by (simp add: str_nat.simps[of n] digit_char_digit)
  next
    case False
    then show ?thesis using 1 by (simp add: str_nat.simps[of n] digit_char_digit)
  qed
qed

lemma str_nat_not_Nil: "str_nat n \<noteq> []"
  by (simp add: str_nat.simps[of n])

lemma int_of_digits_snoc: "int_of_digits (s @ [c]) = 10 * int_of_digits s + digit_val c"
  by (simp add: int_of_digits_def)

lemma int_of_digits_str_nat: "int_of_digits (str_nat n) = n"
proof (induction n rule: str_nat.induct)
  case (1 n)
  show ?case
  proof (cases "n < 10")
    case True
    then show ?thesis by (simp add: str_nat.simps[of n] int_of_digits_def digit_val_digit_char)
  next
    case False
    then have "int_of_digits (str_nat n) = 10 * (n div 10) + n mod 10"
      using 1 by (simp add: str_nat.simps[of n] int_of_digits_snoc digit_val_digit_char)
    then show ?thesis by simp
  qed
qed

lemma takeWhile_run:
  assumes "\<forall>c\<in>set ds. P c" and "rest = [] \<or> \<not> P (hd rest)"
  shows "takeWhile P (ds @ rest) = ds" and "dropWhile P (ds @ rest) = rest"
proof -
  have "takeWhile P rest = []" and "dropWhile P rest = rest"
    using assms(2) by (cases rest; simp)+
  then show "takeWhile P (ds @ rest) = ds" and "dropWhile P (ds @ rest) = rest"
    using assms(1) by (simp_all add: takeWhile_append2 dropWhile_append2)
qed

lemma first_chain_notation:
  "first_chain (''C'' @ str_nat n @ '':'' @ str_nat m) = Some (str_nat n, str_nat m)"
proof -
  have colon: "\<not> is_digit CHR '':''" by (simp add: is_digit_def)
  have a: "takeWhile is_digit (str_nat n @ CHR '':'' # str_nat m) = str_nat n"
    and b: "dropWhile is_digit (str_nat n @ CHR '':'' # str_nat m) = CHR '':'' # str_nat m"
    using takeWhile_run[OF str_nat_digits, of "CHR '':'' # str_nat m" n] colon by simp_all
  have c: "takeWhile is_digit (str_nat m) = str_nat m"
    using takeWhile_run(1)[OF str_nat_digits, of "[]" m] by simp
  show ?thesis by (simp add: a b c str_nat_not_Nil)
qed


lemma findall_C:
  assumes "\<forall>c\<in>set ds. is_digit c" and "rest = [] \<or> \<not> is_digit (hd rest)"
  shows "findall_elements (CHR ''C'' # ds @ rest) = (''C'', ds) # findall_elements rest"
  using takeWhile_run[OF assms] by (simp add: NaturalAbundanceDistributions_def)

lemma findall_H:
  assumes "\<forall>c\<in>set ds. is_digit c" and "rest = [] \<or> \<not> is_digit (hd rest)"
  shows "findall_elements (CHR ''H'' # ds @ rest) = (''H'', ds) # findall_elements rest"
  using takeWhile_run[OF assms] by (simp add: NaturalAbundanceDistributions_def)

lemma findall_O2: "findall_elements ''O2'' = [(''O'', ''2'')]"
  by (simp add: NaturalAbundanceDistributions_def is_digit_def)

lemma not_digit_letters: "\<not> is_digit CHR ''H''" "\<not> is_digit CHR ''O''"
  by (simp_all add: is_digit_def)

lemma int_of_digits_2: "int_of_digits ''2'' = 2"
  by (simp add: int_of_digits_def digit_val_def)

lemma parse_CHO:
  "parseFormula ((if 0 < cn then ''C'' @ str_nat cn else []) @ (if 0 < hn then ''H'' @ str_nat hn else [])
      @ ''O2'')
   = [(''H'', hn), (''C'', cn), (''N'', 0), (''O'', 2), (''Si'', 0), (''S'', 0)]"
proof -
  have H: "findall_elements (CHR ''H'' # str_nat hn @ ''O2'') = [(''H'', str_nat hn), (''O'', ''2'')]"
    using findall_H[OF str_nat_digits, of "''O2''" hn] not_digit_letters findall_O2 by simp
  have C1: "findall_elements (CHR ''C'' # str_nat cn @ ''O2'') = [(''C'', str_nat cn), (''O'', ''2'')]"
    using findall_C[OF str_nat_digits, of "''O2''" cn] not_digit_letters findall_O2 by simp
  have C2: "findall_elements (CHR ''C'' # str_nat cn @ CHR ''H'' # str_nat hn @ ''O2'')
      = [(''C'', str_nat cn), (''H'', str_nat hn), (''O'', ''2'')]"
    using findall_C[OF str_nat_digits, of "CHR ''H'' # str_nat hn @ ''O2''" cn] not_digit_letters H
    by simp
  show ?thesis
    using H C1 C2 findall_O2
    by (simp add: parseFormula_def add_count_def NaturalAbundanceDistributions_def
        int_of_digits_str_nat str_nat_not_Nil int_of_digits_2)
qed

lemma str_int_pos: "0 < n \<Longrightarrow> str_int n = str_nat (nat n)"
  by (simp add: str_int_def)

lemma str_int_2: "str_int 2 = ''2''"
  by (simp add: str_int_def str_nat.simps digit_char_def)

lemma written_formula:
  "concat (map (\<lambda>(letter, n). letter @ str_int n)
      (filter (\<lambda>(letter, n). n > 0) [(''C'', cn), (''H'', hn), (''Si'', 0), (''O'', 2)]))
   = (if 0 < nat cn then ''C'' @ str_nat (nat cn) else [])
      @ (if 0 < nat hn then ''H'' @ str_nat (nat hn) else []) @ ''O2''"
  by (simp add: str_int_pos str_int_2)

lemma getFAFormulaString_plain:
  assumes "first_chain entry = Some (c, d)"
  shows "getFAFormulaString entry False False =
     Inr (concat (map (\<lambda>(letter, n). letter @ str_int n)
      (filter (\<lambda>(letter, n). n > 0)
        [(''C'', int (int_of_digits c)),
         (''H'', 3 + (int (int_of_digits c) - 2) * 2 + 1 - 2 * int (int_of_digits d)),
         (''Si'', 0), (''O'', 2)])))"
  using assms by (simp add: getFAFormulaString_def Let_def)

lemma getFAFormulaString_FAMES:
  assumes "first_chain entry = Some (c, d)"
  shows "getFAFormulaString entry True False =
     Inr (concat (map (\<lambda>(letter, n). letter @ str_int n)
      (filter (\<lambda>(letter, n). n > 0)
        [(''C'', int (int_of_digits c) + 1),
         (''H'', 3 + (int (int_of_digits c) - 2) * 2 + 1 - 2 * int (int_of_digits d) - 1 + 3),
         (''Si'', 0), (''O'', 2)])))"
  using assms by (simp add: getFAFormulaString_def Let_def)

lemma chain_composition_aux:
  assumes "first_chain entry = Some (c, d)"
  shows "\<exists>formula. getFAFormulaString entry FAMES False = Inr formula \<and>
     parseFormula formula =
       [(''H'', nat (max 0 (3 + (int (int_of_digits c) - 2) * 2 + 1 - 2 * int (int_of_digits d)
                            + (if FAMES then 2 else 0)))),
        (''C'', int_of_digits c + (if FAMES then 1 else 0)),
        (''N'', 0), (''O'', 2), (''Si'', 0), (''S'', 0)]"
proof -
  define h where "h = 3 + (int (int_of_digits c) - 2) * 2 + 1 - 2 * int (int_of_digits d)"
  define cn where "cn = (if FAMES then int (int_of_digits c) + 1 else int (int_of_digits c))"
  define hn where "hn = (if FAMES then h - 1 + 3 else h)"
  define formula where "formula = (if 0 < nat cn then ''C'' @ str_nat (nat cn) else [])
      @ (if 0 < nat hn then ''H'' @ str_nat (nat hn) else []) @ ''O2''"
  have "getFAFormulaString entry FAMES False =
     Inr (concat (map (\<lambda>(letter, n). letter @ str_int n)
      (filter (\<lambda>(letter, n). n > 0) [(''C'', cn), (''H'', hn), (''Si'', 0), (''O'', 2)])))"
  proof (cases FAMES)
    case True
    then show ?thesis
      using getFAFormulaString_FAMES[OF assms] by (simp only: cn_def hn_def h_def if_True)
  next
    case False
    then show ?thesis
      using getFAFormulaString_plain[OF assms] by (simp only: cn_def hn_def h_def if_False)
  qed
  then have f: "getFAFormulaString entry FAMES False = Inr formula"
    by (simp only: written_formula formula_def)
  have p: "parseFormula formula = [(''H'', nat hn), (''C'', nat cn), (''N'', 0), (''O'', 2), (''Si'', 0), (''S'', 0)]"
    unfolding formula_def by (rule parse_CHO)
  have "nat hn = nat (max 0 (h + (if FAMES then 2 else 0)))" by (auto simp: hn_def max_def)
  moreover have "nat cn = int_of_digits c + (if FAMES then 1 else 0)"
    by (auto simp: cn_def nat_add_distrib)
  ultimately have "parseFormula formula =
       [(''H'', nat (max 0 (h + (if FAMES then 2 else 0)))),
        (''C'', int_of_digits c + (if FAMES then 1 else 0)),
        (''N'', 0), (''O'', 2), (''Si'', 0), (''S'', 0)]"
    using p by (simp only:)
  with f show ?thesis unfolding h_def by blast
qed

section \<open>The correction matrix: lemmas\<close>

lemma length_convolve: "length (convolve a v) = length a + length v - 1"
  by (simp add: convolve_def)

lemma coeff_convolve: "coeff (convolve a v) k = (\<Sum>j\<le>k. coeff a j * coeff v (k - j))"
proof (cases "k < length a + length v - 1")
  case True
  then have "[0..<length a + length v - 1] ! k = k" by simp
  then have "convolve a v ! k = (\<Sum>j\<leftarrow>[0..<Suc k]. coeff a j * coeff v (k - j))"
    using True unfolding convolve_def by (simp only: nth_map length_upt minus_nat.diff_0)
  then have "coeff (convolve a v) k = (\<Sum>j\<leftarrow>[0..<Suc k]. coeff a j * coeff v (k - j))"
    using True by (simp only: coeff_def[of "convolve a v"] length_convolve if_True)
  also have "\<dots> = (\<Sum>j\<in>{0..<Suc k}. coeff a j * coeff v (k - j))"
    by (simp add: interv_sum_list_conv_sum_set_nat del: upt_Suc)
  also have "{0..<Suc k} = {..k}" by auto
  finally show ?thesis .
next
  case False
  have "coeff a j * coeff v (k - j) = 0" if "j \<le> k" for j
  proof (cases "j < length a \<and> k - j < length v")
    case True
    then have "k < length a + length v - 1" using that by linarith
    with False show ?thesis by simp
  next
    case False
    then show ?thesis by (auto simp: coeff_def)
  qed
  then have "(\<Sum>j\<le>k. coeff a j * coeff v (k - j)) = 0" by (intro sum.neutral) simp
  moreover have "coeff (convolve a v) k = 0"
    using False by (simp add: coeff_def length_convolve)
  ultimately show ?thesis by simp
qed

lemma coeff_convolve_cong:
  assumes "\<forall>j<m. coeff a' j = coeff a j" and "k < m"
  shows "coeff (convolve a' v) k = coeff (convolve a v) k"
  unfolding coeff_convolve using assms by (intro sum.cong) auto

lemma coeff_take: "k < m \<Longrightarrow> coeff (take m xs) k = coeff xs k"
  by (simp add: coeff_def)

lemma coeff_pad: "coeff (xs @ replicate z 0) k = coeff xs k"
  by (simp add: coeff_def nth_append)

lemma coeff_eqI:
  assumes "length xs = m" and "length ys = m" and "\<forall>k<m. coeff xs k = coeff ys k"
  shows "xs = ys"
  using assms by (intro nth_equalityI) (auto simp: coeff_def)

lemma length_funpow_convolve:
  assumes "t \<noteq> []" and "base \<noteq> []"
  shows "length (((\<lambda>col. convolve col t) ^^ n) base) = length base + n * (length t - 1)"
proof (induction n)
  case 0
  then show ?case by simp
next
  case (Suc n)
  obtain lt where lt: "length t = Suc lt" using assms(1) by (cases t) auto
  show ?case using Suc by (simp add: length_convolve lt)
qed

lemma convolve_trunc_n_coeff:
  assumes "v \<noteq> []" and "0 < m"
  shows "length column = m \<Longrightarrow> \<forall>k<m. coeff column k = coeff x k \<Longrightarrow>
     \<exists>column'. convolve_trunc_n cnt m v column = Inr column' \<and> length column' = m
        \<and> (\<forall>k<m. coeff column' k = coeff (((\<lambda>col. convolve col v) ^^ cnt) x) k)"
proof (induction cnt arbitrary: column x)
  case 0
  then show ?case by simp
next
  case (Suc cnt)
  have ne: "column \<noteq> []" using Suc.prems(1) assms(2) by auto
  let ?r = "take m (convolve column v)"
  obtain lv where lv: "length v = Suc lv" using assms(1) by (cases v) auto
  have len: "length ?r = m"
    using Suc.prems(1) by (simp add: length_convolve lv)
  have agree: "\<forall>k<m. coeff ?r k = coeff (convolve x v) k"
    using Suc.prems(2) by (auto simp: coeff_take intro: coeff_convolve_cong)
  from Suc.IH[OF len agree]
  obtain column' where c: "convolve_trunc_n cnt m v ?r = Inr column'" "length column' = m"
    "\<forall>k<m. coeff column' k = coeff (((\<lambda>col. convolve col v) ^^ cnt) (convolve x v)) k"
    by blast
  have step: "convolve_trunc_n (Suc cnt) m v column = Inr column'"
    using ne assms(1) c(1) by (simp add: np_convolve_def)
  have sw: "((\<lambda>col. convolve col v) ^^ Suc cnt) x = ((\<lambda>col. convolve col v) ^^ cnt) (convolve x v)"
    by (simp only: funpow_Suc_right o_apply)
  show ?case unfolding sw using step c(2,3) by blast
qed


lemma convolve_not_Nil: "a \<noteq> [] \<Longrightarrow> v \<noteq> [] \<Longrightarrow> convolve a v \<noteq> []"
proof -
  assume "a \<noteq> []" "v \<noteq> []"
  then obtain la lv where "length a = Suc la" "length v = Suc lv"
    by (cases a; cases v) auto
  then have "length (convolve a v) = Suc (la + lv)" by (simp add: length_convolve)
  then show ?thesis by auto
qed

lemma convolve_n_Inr:
  "convolve_n k NADistributions atom r = Inr r' \<Longrightarrow> r \<noteq> [] \<Longrightarrow>
   r' \<noteq> [] \<and> r' = ((\<lambda>x. convolve x (the (map_of NADistributions atom))) ^^ k) r"
proof (induction k arbitrary: r)
  case 0
  then show ?case by simp
next
  case (Suc k)
  from Suc.prems(1) obtain d where d: "map_of NADistributions atom = Some d"
    by (auto split: option.splits)
  from Suc.prems(1) d have dne: "d \<noteq> []" and
    rest: "convolve_n k NADistributions atom (convolve r d) = Inr r'"
    by (auto simp: np_convolve_def split: if_splits)
  from Suc.IH[OF rest convolve_not_Nil[OF Suc.prems(2) dne]]
  have "r' \<noteq> []" and "r' = ((\<lambda>x. convolve x d) ^^ k) (convolve r d)" using d by auto
  moreover have "((\<lambda>x. convolve x d) ^^ Suc k) r = ((\<lambda>x. convolve x d) ^^ k) (convolve r d)"
    by (simp only: funpow_Suc_right o_apply)
  ultimately show ?case using d by simp
qed

lemma mass_distribution_loop_Inr:
  "mass_distribution_loop items atomTracer NADistributions r = Inr base \<Longrightarrow> r \<noteq> [] \<Longrightarrow>
   base \<noteq> [] \<and>
   base = foldl (\<lambda>res (atom, k). ((\<lambda>x. convolve x (the (map_of NADistributions atom))) ^^ k) res) r
            (filter (\<lambda>(atom, k). atom \<noteq> atomTracer) items)"
proof (induction items atomTracer NADistributions r rule: mass_distribution_loop.induct)
  case (1 atomTracer NADistributions result)
  then show ?case by simp
next
  case (2 atom n items atomTracer NADistributions result)
  show ?case
  proof (cases "atom \<noteq> atomTracer")
    case True
    with "2.prems"(1) obtain r where r: "convolve_n n NADistributions atom result = Inr r"
      and rest: "mass_distribution_loop items atomTracer NADistributions r = Inr base"
      by (auto split: sum.splits)
    from convolve_n_Inr[OF r "2.prems"(2)] have rne: "r \<noteq> []"
      and req: "r = ((\<lambda>x. convolve x (the (map_of NADistributions atom))) ^^ n) result" by auto
    let ?F = "\<lambda>res (atom, k). ((\<lambda>x. convolve x (the (map_of NADistributions atom))) ^^ k) res"
    let ?P = "\<lambda>(atom, k). atom \<noteq> atomTracer"
    from "2.IH"(1)[OF True r rest rne] have b1: "base \<noteq> []"
      and b2: "base = foldl ?F r (filter ?P items)" by blast+
    have "foldl ?F result (filter ?P ((atom, n) # items)) = foldl ?F r (filter ?P items)"
      using True req by simp
    then have "base = foldl ?F result (filter ?P ((atom, n) # items))" using b2 by (simp only:)
    with b1 show ?thesis ..
  next
    case False
    let ?F = "\<lambda>res (atom, k). ((\<lambda>x. convolve x (the (map_of NADistributions atom))) ^^ k) res"
    let ?P = "\<lambda>(atom, k). atom \<noteq> atomTracer"
    have "mass_distribution_loop items atomTracer NADistributions result = Inr base"
      using False "2.prems"(1) by simp
    from "2.IH"(2)[OF _ this "2.prems"(2)] False have b1: "base \<noteq> []"
      and b2: "base = foldl ?F result (filter ?P items)" by blast+
    have "filter ?P ((atom, n) # items) = filter ?P items" using False by simp
    then have "base = foldl ?F result (filter ?P ((atom, n) # items))" using b2 by (simp only:)
    with b1 show ?thesis ..
  qed
qed

lemma calculateMassDistributionVector_Inr:
  assumes "calculateMassDistributionVector elementDict atomTracer NADistributions = Inr base"
  shows "base \<noteq> []"
    and "base = foldl (\<lambda>res (atom, k). ((\<lambda>x. convolve x (the (map_of NADistributions atom))) ^^ k) res) [1]
            (filter (\<lambda>(atom, k). atom \<noteq> atomTracer) elementDict)"
proof -
  have "mass_distribution_loop elementDict atomTracer NADistributions [1] = Inr base"
    using assms by (simp only: calculateMassDistributionVector_def)
  from mass_distribution_loop_Inr[OF this] show "base \<noteq> []"
    and "base = foldl (\<lambda>res (atom, k). ((\<lambda>x. convolve x (the (map_of NADistributions atom))) ^^ k) res) [1]
            (filter (\<lambda>(atom, k). atom \<noteq> atomTracer) elementDict)"
    by blast+
qed

lemma all_columns_Inr:
  "\<forall>i\<in>set is. \<exists>column. f i = Inr column \<Longrightarrow>
   \<exists>columns. all_columns f is = Inr columns \<and> length columns = length is
      \<and> (\<forall>k<length is. f (is ! k) = Inr (columns ! k))"
proof (induction "is")
  case Nil
  then show ?case by simp
next
  case (Cons i "is")
  then obtain column where c: "f i = Inr column" by auto
  from Cons obtain columns where cs: "all_columns f is = Inr columns" "length columns = length is"
    "\<forall>k<length is. f (is ! k) = Inr (columns ! k)" by auto
  have "\<forall>k<length (i # is). f ((i # is) ! k) = Inr ((column # columns) ! k)"
    using c cs(3) by (auto simp: nth_Cons split: nat.splits)
  then show ?case using c cs(1,2) by simp
qed

lemma rows_of_shape:
  "length (rows_of m columns) = m" "\<forall>row\<in>set (rows_of m columns). length row = length columns"
  by (auto simp: rows_of_def)

lemma rows_of_column0:
  assumes "columns \<noteq> []" and "length (columns ! 0) = m"
  shows "map (\<lambda>row. row ! 0) (rows_of m columns) = columns ! 0"
  using assms by (intro nth_equalityI) (auto simp: rows_of_def)


lemma result_step:
  assumes n: "map_of elementDict atomTracer = Some n"
    and t: "map_of NADistributions atomTracer = Some t"
    and base: "calculateMassDistributionVector elementDict atomTracer NADistributions = Inr base"
    and m_int: "1 + int n * (int (length t) - 1) = int m"
    and nomsg: "\<not> int m > int (length base) + int n * (int (length t) - 1)"
    and cv_eq: "(if int (length base) < int m
                then base @ replicate (nat (int m - int (length base))) 0 else base) = cv"
    and cols: "all_columns (correction_column m n cv purityTracer t) [0..<n + 1] = Inr columns"
  shows "computeCorrectionMatrix elementDict atomTracer NADistributions purityTracer
      = ([], Inr (rows_of m columns))"
proof -
  have "computeCorrectionMatrix elementDict atomTracer NADistributions purityTracer
      = (let printed = [] @ (if int m > int (length base) + int n * (int (length t) - 1)
                               then [matrix_size_message] else []);
             correctionVector = (if int (length base) < int m
                then base @ replicate (nat (int m - int (length base))) 0 else base)
         in if int m < 0 then (printed, Inl ValueError)
            else (case all_columns (correction_column (nat (int m)) n correctionVector purityTracer t)
                     [0..<n + 1] of
                    Inl e \<Rightarrow> (printed, Inl e)
                  | Inr columns \<Rightarrow> (printed, Inr (rows_of (nat (int m)) columns))))"
    unfolding computeCorrectionMatrix_def base n t sum.case option.case 
    by (simp only: Let_def m_int)
  also have "\<dots> = ([], Inr (rows_of m columns))"
    unfolding cv_eq Let_def using nomsg cols by (simp del: upt_Suc)
  finally show ?thesis .
qed


lemma computeCorrectionMatrix_built:
  assumes n: "map_of elementDict atomTracer = Some n"
    and t: "map_of NADistributions atomTracer = Some t" and tne: "t \<noteq> []"
    and pne: "n = 0 \<or> purityTracer \<noteq> []"
    and base: "calculateMassDistributionVector elementDict atomTracer NADistributions = Inr base"
  shows "\<exists>M. computeCorrectionMatrix elementDict atomTracer NADistributions purityTracer = ([], Inr M)
     \<and> length M = 1 + n * (length t - 1) \<and> (\<forall>row\<in>set M. length row = n + 1)
     \<and> map (\<lambda>row. row ! 0) M = take (1 + n * (length t - 1)) (((\<lambda>col. convolve col t) ^^ n) base)"
proof -
  obtain lt where lt: "length t = Suc lt" using tne by (cases t) auto
  define m where "m = 1 + n * lt"
  have m_pos: "0 < m" by (simp add: m_def)
  have m_int: "1 + int n * (int (length t) - 1) = int m" by (simp add: m_def lt)
  have bne: "base \<noteq> []" using calculateMassDistributionVector_Inr(1)[OF base] .
  define cv where "cv = (if length base < m then base @ replicate (m - length base) 0 else base)"
  have cv_len: "m \<le> length cv" by (simp add: cv_def)
  have cv_coeff: "coeff cv k = coeff base k" for k by (simp add: cv_def coeff_pad)
  have start_len: "length (take m cv) = m" using cv_len by simp
  have start_coeff: "\<forall>k<m. coeff (take m cv) k = coeff base k"
    by (simp add: coeff_take cv_coeff)
  let ?f = "correction_column m n cv purityTracer t"
  have col0: "\<exists>column. ?f 0 = Inr column \<and> length column = m
      \<and> (\<forall>k<m. coeff column k = coeff (((\<lambda>col. convolve col t) ^^ n) base) k)"
    using convolve_trunc_n_coeff[OF tne m_pos start_len start_coeff, of n]
    by (simp add: correction_column_def)
  have col: "\<exists>column. ?f i = Inr column" if "i \<le> n" for i
  proof (cases "i = 0")
    case True
    then show ?thesis using col0 by blast
  next
    case False
    then have p: "purityTracer \<noteq> []" using pne that by auto
    from convolve_trunc_n_coeff[OF p m_pos start_len, of "take m cv" i]
    obtain c1 where c1: "convolve_trunc_n i m purityTracer (take m cv) = Inr c1" "length c1 = m"
      by blast
    from convolve_trunc_n_coeff[OF tne m_pos c1(2), of c1 "n - i"]
    obtain c2 where "convolve_trunc_n (n - i) m t c1 = Inr c2" by blast
    then show ?thesis using c1(1) by (simp add: correction_column_def)
  qed
  have "\<forall>i\<in>set [0..<n + 1]. \<exists>column. ?f i = Inr column" using col by simp
  from all_columns_Inr[OF this]
  obtain columns where cols: "all_columns ?f [0..<n + 1] = Inr columns"
    "length columns = length [0..<n + 1]"
    "\<forall>k<length [0..<n + 1]. ?f ([0..<n + 1] ! k) = Inr (columns ! k)"
    by blast
  from col0 obtain column0 where c0: "?f 0 = Inr column0" "length column0 = m"
    "\<forall>k<m. coeff column0 k = coeff (((\<lambda>col. convolve col t) ^^ n) base) k" by blast
  have "0 < length [0..<n + 1]" by simp
  from cols(3)[rule_format, OF this] have "?f ([0..<n + 1] ! 0) = Inr (columns ! 0)" .
  moreover have "[0..<n + 1] ! 0 = 0" by (simp add: nth_upt del: upt_Suc)
  ultimately have "?f 0 = Inr (columns ! 0)" by (simp only:)
  then have first: "columns ! 0 = column0" using c0(1) by (simp only: sum.inject)
  have clen: "length columns = n + 1" using cols(2) by simp
  have cne: "columns \<noteq> []" using clen by auto
  have "1 \<le> int (length base)" using bne by (cases base) simp_all
  then have nomsg: "\<not> int m > int (length base) + int n * (int (length t) - 1)"
    unfolding m_int[symmetric] by linarith
  have cv_eq: "(if int (length base) < int m
                then base @ replicate (nat (int m - int (length base))) 0 else base) = cv"
  proof -
    have "nat (int m - int (length base)) = m - length base" by linarith
    then show ?thesis by (simp add: cv_def)
  qed
  have result: "computeCorrectionMatrix elementDict atomTracer NADistributions purityTracer
      = ([], Inr (rows_of m columns))"
    using n t base m_int nomsg cv_eq cols(1) by (rule result_step)
  have len_pow: "length (((\<lambda>col. convolve col t) ^^ n) base) = length base + n * lt"
    using length_funpow_convolve[OF tne bne, of n] by (simp add: lt)
  have "m \<le> length base + n * lt" using bne by (cases base) (auto simp: m_def)
  then have "length (take m (((\<lambda>col. convolve col t) ^^ n) base)) = m"
    using len_pow by simp
  moreover have "\<forall>k<m. coeff column0 k = coeff (take m (((\<lambda>col. convolve col t) ^^ n) base)) k"
    using c0(3) by (simp add: coeff_take)
  ultimately have "column0 = take m (((\<lambda>col. convolve col t) ^^ n) base)"
    using c0(2) by (intro coeff_eqI[of _ m]) simp_all
  then have "map (\<lambda>row. row ! 0) (rows_of m columns) = take m (((\<lambda>col. convolve col t) ^^ n) base)"
    using rows_of_column0[OF cne, of m] first c0(2) by simp
  moreover have "m = 1 + n * (length t - 1)" by (simp add: m_def lt)
  ultimately have "computeCorrectionMatrix elementDict atomTracer NADistributions purityTracer
        = ([], Inr (rows_of m columns))
     \<and> length (rows_of m columns) = 1 + n * (length t - 1)
     \<and> (\<forall>row\<in>set (rows_of m columns). length row = n + 1)
     \<and> map (\<lambda>row. row ! 0) (rows_of m columns)
         = take (1 + n * (length t - 1)) (((\<lambda>col. convolve col t) ^^ n) base)"
    using result rows_of_shape[of m columns] clen by (simp only:)
  then show ?thesis by (intro exI[of _ "rows_of m columns"])
qed


lemma convolve_n_succeeds:
  "map_of NADistributions atom = Some d \<Longrightarrow> d \<noteq> [] \<Longrightarrow> r \<noteq> [] \<Longrightarrow>
   \<exists>r'. convolve_n k NADistributions atom r = Inr r'"
proof (induction k arbitrary: r)
  case 0
  then show ?case by simp
next
  case (Suc k)
  from Suc.IH[OF Suc.prems(1,2) convolve_not_Nil[OF Suc.prems(3,2)]]
  show ?case using Suc.prems by (simp add: np_convolve_def)
qed

lemma mass_distribution_loop_succeeds:
  "distributions_known items atomTracer NADistributions \<Longrightarrow> r \<noteq> [] \<Longrightarrow>
   \<exists>base. mass_distribution_loop items atomTracer NADistributions r = Inr base"
proof (induction items atomTracer NADistributions r rule: mass_distribution_loop.induct)
  case (1 atomTracer NADistributions result)
  then show ?case by simp
next
  case (2 atom n items atomTracer NADistributions result)
  have known: "distributions_known items atomTracer NADistributions"
    using "2.prems"(1) by (simp add: distributions_known_def)
  show ?case
  proof (cases "atom \<noteq> atomTracer")
    case True
    have "\<exists>r. convolve_n n NADistributions atom result = Inr r"
    proof (cases n)
      case 0
      then show ?thesis by simp
    next
      case (Suc k)
      with True "2.prems"(1) obtain d where "map_of NADistributions atom = Some d" "d \<noteq> []"
        by (auto simp: distributions_known_def split: option.splits)
      then show ?thesis using convolve_n_succeeds "2.prems"(2) by blast
    qed
    then obtain r where r: "convolve_n n NADistributions atom result = Inr r" by blast
    from convolve_n_Inr[OF r "2.prems"(2)] have "r \<noteq> []" by blast
    from "2.IH"(1)[OF True r known this] show ?thesis using True r by simp
  next
    case False
    with "2.IH"(2)[OF _ known "2.prems"(2)] show ?thesis by simp
  qed
qed

lemma calculateMassDistributionVector_succeeds:
  "distributions_known elementDict atomTracer NADistributions \<Longrightarrow>
   \<exists>base. calculateMassDistributionVector elementDict atomTracer NADistributions = Inr base"
  unfolding calculateMassDistributionVector_def
  by (rule mass_distribution_loop_succeeds) simp_all

section \<open>Correcting a data frame: lemmas\<close>


lemma width_Cons: "width (row # rows) = length row"
  by (simp add: width_def)


lemma corrected_data_unbound:
  "corrected_data lib method M nCols None \<noteq> Inr x"
  "method \<noteq> ''SMC'' \<Longrightarrow> corrected_data lib method M nCols None = Inl UnboundLocalError"
  by (auto simp: corrected_data_def split: sum.splits)

lemma correct_unfold:
  assumes "computeCorrectionMatrix (self_elementsDict self) (self_atomTracer self)
             (self_NaturalAbundanceDistributions self) (self_purityTracer self) = (pr, Inr M)"
  shows "correctForNaturalAbundance lib self dataFrame method =
     (case corrected_data lib method M (width M)
             (if width M < length (df_columns dataFrame) then None
              else Some (map (\<lambda>row. row @ replicate (width M - length (df_columns dataFrame)) 0)
                           (df_values dataFrame))) of
        Inl e \<Rightarrow>
          (pr @ (if width M < length (df_columns dataFrame) then [more_clusters_message] else []),
           Inl e)
      | Inr (ncols, correctedData) \<Rightarrow>
          if min (length (df_columns dataFrame)) ncols = length (df_columns dataFrame)
          then (pr @ (if width M < length (df_columns dataFrame) then [more_clusters_message] else []),
                Inr \<lparr>df_columns = df_columns dataFrame,
                     df_values = map (take (length (df_columns dataFrame))) correctedData\<rparr>)
          else (pr @ (if width M < length (df_columns dataFrame) then [more_clusters_message] else []),
                Inl ValueError))"
  using assms by (simp add: correctForNaturalAbundance_def Let_def)


lemma correct_more_clusters:
  assumes "computeCorrectionMatrix (self_elementsDict self) (self_atomTracer self)
             (self_NaturalAbundanceDistributions self) (self_purityTracer self) = (pr, Inr M)"
    and "width M < length (df_columns dataFrame)"
  shows "\<exists>e. correctForNaturalAbundance lib self dataFrame method
            = (pr @ [more_clusters_message], Inl e)"
    and "method \<noteq> ''SMC'' \<Longrightarrow> correctForNaturalAbundance lib self dataFrame method
            = (pr @ [more_clusters_message], Inl UnboundLocalError)"
proof -
  note eq = correct_unfold[OF assms(1), of lib dataFrame "method"]
  show "\<exists>e. correctForNaturalAbundance lib self dataFrame method
            = (pr @ [more_clusters_message], Inl e)"
    unfolding eq using corrected_data_unbound(1)[of lib "method" M "width M"] assms(2)
    by (cases "corrected_data lib method M (width M) None") auto
  show "method \<noteq> ''SMC'' \<Longrightarrow> correctForNaturalAbundance lib self dataFrame method
            = (pr @ [more_clusters_message], Inl UnboundLocalError)"
    unfolding eq using assms(2) by (simp add: corrected_data_unbound(2))
qed

lemma computeCost_total:
  assumes "M \<noteq> []" and "\<forall>row\<in>set M. length row = c" and "length M = c"
    and "length x = c" and "length target = c"
  shows "\<exists>r. computeCost x target M = Inr r"
proof -
  have p: "dot_matrix_vector M x = Inr (map (\<lambda>row. dot row x) M)"
    using assms(2,4) by (simp add: dot_matrix_vector_def list_all_iff)
  have s: "subtract target (map (\<lambda>row. dot row x) M)
      = Inr (map2 (-) target (map (\<lambda>row. dot row x) M))"
    using assms(3,5) by (simp add: subtract_def)
  have len: "length (map2 (-) target (map (\<lambda>row. dot row x) M)) = c"
    using assms(3,5) by simp
  have "\<forall>col\<in>set (columns_of M). length col = c"
    using assms(1,3) by (cases M) (auto simp: columns_of_def)
  then have g: "\<exists>gradient. dot_matrix_vector (columns_of M)
        (map2 (-) target (map (\<lambda>row. dot row x) M)) = Inr gradient"
    using len by (simp add: dot_matrix_vector_def list_all_iff)
  then obtain gradient where "dot_matrix_vector (columns_of M)
        (map2 (-) target (map (\<lambda>row. dot row x) M)) = Inr gradient" by blast
  then show ?thesis using p s by (simp add: computeCost_def)
qed

lemma library_contract_pinv:
  assumes "library_contract lib" and "M \<noteq> []"
  shows "\<exists>P. lib_pinv lib M = Inr P \<and> length P = width M \<and> (\<forall>row\<in>set P. length row = length M)"
proof -
  from assms(1) have "\<forall>M. M \<noteq> [] \<longrightarrow>
          (\<exists>P. lib_pinv lib M = Inr P \<and> length P = width M \<and>
               (\<forall>row\<in>set P. length row = length M))"
    unfolding library_contract_def by (rule conjunct1)
  from this[rule_format, OF assms(2)] show ?thesis .
qed

lemma library_contract_minimize:
  assumes "library_contract lib" and "length bounds = length x0" and "feasible bounds"
    and "\<forall>x. length x = length x0 \<longrightarrow> (\<exists>r. cost x = Inr r)"
  shows "\<exists>x. lib_minimize lib cost x0 bounds = Inr x \<and> length x = length x0"
proof -
  from assms(1) have "\<forall>cost x0 bounds.
            length bounds = length x0 \<and> feasible bounds
            \<and> (\<forall>x. length x = length x0 \<longrightarrow> (\<exists>r. cost x = Inr r)) \<longrightarrow>
            (\<exists>x. lib_minimize lib cost x0 bounds = Inr x \<and> length x = length x0)"
    unfolding library_contract_def by (rule conjunct2)
  then have "\<forall>x0 bounds.
            length bounds = length x0 \<and> feasible bounds
            \<and> (\<forall>x. length x = length x0 \<longrightarrow> (\<exists>r. cost x = Inr r)) \<longrightarrow>
            (\<exists>x. lib_minimize lib cost x0 bounds = Inr x \<and> length x = length x0)"
    by (rule spec)
  then have "\<forall>bounds.
            length bounds = length x0 \<and> feasible bounds
            \<and> (\<forall>x. length x = length x0 \<longrightarrow> (\<exists>r. cost x = Inr r)) \<longrightarrow>
            (\<exists>x. lib_minimize lib cost x0 bounds = Inr x \<and> length x = length x0)"
    by (rule spec)
  then have "length bounds = length x0 \<and> feasible bounds
            \<and> (\<forall>x. length x = length x0 \<longrightarrow> (\<exists>r. cost x = Inr r)) \<longrightarrow>
            (\<exists>x. lib_minimize lib cost x0 bounds = Inr x \<and> length x = length x0)"
    by (rule spec)
  moreover have "length bounds = length x0 \<and> feasible bounds
            \<and> (\<forall>x. length x = length x0 \<longrightarrow> (\<exists>r. cost x = Inr r))"
    using assms(2,3,4) by (intro conjI)
  ultimately show ?thesis by (rule mp)
qed

lemma feasible_replicate: "feasible (replicate n (0, None))"
  by (simp add: feasible_def list_all_iff)

lemma minimize_all_succeeds:
  assumes "library_contract lib" and "M \<noteq> []" and "\<forall>row\<in>set M. length row = c"
    and "length M = c"
  shows "\<forall>target\<in>set targets. length target = c \<Longrightarrow>
     \<exists>xs. minimize_all lib (replicate c 0) M targets = Inr xs
        \<and> (\<forall>x\<in>set xs. length x = c) \<and> length xs = length targets"
proof (induction targets)
  case Nil
  then show ?case by simp
next
  case (Cons target targets)
  have t: "length target = c" using Cons.prems by simp
  have total: "\<forall>x. length x = length (replicate c (0::real)) \<longrightarrow>
            (\<exists>r. computeCost x target M = Inr r)"
  proof (intro allI impI)
    fix x :: "real list" assume "length x = length (replicate c (0::real))"
    then have "length x = c" by simp
    from computeCost_total[OF assms(2,3,4) this t] show "\<exists>r. computeCost x target M = Inr r" .
  qed
  have len: "length (replicate (length (replicate c (0::real))) (0::real, None::real option))
      = length (replicate c (0::real))" by simp
  from library_contract_minimize[OF assms(1) len feasible_replicate total]
  obtain x where x:
    "lib_minimize lib (\<lambda>currentMID. computeCost currentMID target M) (replicate c 0)
       (replicate (length (replicate c (0::real))) (0, None)) = Inr x"
    "length x = length (replicate c (0::real))"
    by blast
  have "\<forall>target\<in>set targets. length target = c" using Cons.prems by simp
  from Cons.IH[OF this] obtain xs where xs: "minimize_all lib (replicate c 0) M targets = Inr xs"
    "\<forall>x\<in>set xs. length x = c" "length xs = length targets" by blast
  have "minimizeCost lib (replicate c 0) target M = Inr x"
    using x(1) by (simp only: minimizeCost_def)
  then show ?case using x(2) xs by simp
qed

lemma zero_library_contract: "library_contract zero_library"
proof -
  have "length (replicate (width M) (replicate (length M) (0::real))) = width M
      \<and> (\<forall>row\<in>set (replicate (width M) (replicate (length M) (0::real))). length row = length M)"
    for M :: "real list list" by simp
  moreover have "\<exists>x. (case cost x0 of Inl e \<Rightarrow> Inl e | Inr r \<Rightarrow> Inr (map2 clip x0 bounds)) = Inr x
        \<and> length x = length x0"
    if "\<forall>x. length x = length x0 \<longrightarrow> (\<exists>r. cost x = Inr r)" and "length bounds = length x0"
    for cost :: "real list \<Rightarrow> error + (real \<times> real list)" and x0 :: "real list"
      and bounds :: "(real \<times> real option) list"
  proof -
    from that(1) obtain r where "cost x0 = Inr r" by blast
    then show ?thesis using that(2) by simp
  qed
  ultimately show ?thesis by (simp add: library_contract_def zero_library_def)
qed

lemma clip_within:
  assumes "case hi of None \<Rightarrow> True | Some h \<Rightarrow> lo \<le> h"
  shows "lo \<le> clip v (lo, hi) \<and> (case hi of None \<Rightarrow> True | Some h \<Rightarrow> clip v (lo, hi) \<le> h)"
  using assms by (cases hi) (auto simp: clip_def)

lemma map2_clip_within:
  "length bounds = length x0 \<Longrightarrow> feasible bounds \<Longrightarrow> within_bounds (map2 clip x0 bounds) bounds"
proof (induction x0 bounds rule: list_induct2')
  case (4 v x0 bound bounds)
  obtain lo hi where b: "bound = (lo, hi)" by (cases bound)
  from 4 b have f: "case hi of None \<Rightarrow> True | Some h \<Rightarrow> lo \<le> h" and fs: "feasible bounds"
    and len: "length bounds = length x0"
    by (simp_all add: feasible_def)
  from 4(1)[OF len fs] clip_within[OF f, of v] show ?case
    by (simp add: within_bounds_def b)
qed (simp_all add: within_bounds_def)

lemma zero_library_bounds: "bounds_kept zero_library"
  unfolding bounds_kept_def
proof (intro allI impI)
  fix cost :: "real list \<Rightarrow> error + (real \<times> real list)" and x0 x :: "real list"
    and bounds :: "(real \<times> real option) list"
  assume a: "lib_minimize zero_library cost x0 bounds = Inr x"
  then have ok: "length bounds = length x0" "feasible bounds"
    by (auto simp: zero_library_def split: if_splits)
  with a have "x = map2 clip x0 bounds"
    by (auto simp: zero_library_def split: sum.splits)
  with map2_clip_within[OF ok] show "within_bounds x bounds" by simp
qed

lemma within_bounds_nonneg:
  assumes "within_bounds x (replicate n (0, None))"
  shows "\<forall>v\<in>set x. 0 \<le> v"
proof
  fix v assume "v \<in> set x"
  then obtain i where i: "i < length x" "x ! i = v" by (auto simp: in_set_conv_nth)
  from assms have len: "length x = n"
    and all: "\<forall>i<length x. (case replicate n (0::real, None::real option) ! i of
                (lo, hi) \<Rightarrow> lo \<le> x ! i \<and> (case hi of None \<Rightarrow> True | Some h \<Rightarrow> x ! i \<le> h))"
    by (auto simp: within_bounds_def list_all2_conv_all_nth)
  from all i(1) len have "0 \<le> x ! i" by auto
  with i(2) show "0 \<le> v" by simp
qed

lemma minimize_all_nonneg:
  assumes "bounds_kept lib"
  shows "minimize_all lib x0 M targets = Inr xs \<Longrightarrow> \<forall>x\<in>set xs. \<forall>v\<in>set x. 0 \<le> v"
proof (induction targets arbitrary: xs)
  case Nil
  then show ?case by simp
next
  case (Cons target targets)
  from Cons.prems obtain x rest where x: "minimizeCost lib x0 target M = Inr x"
    and rest: "minimize_all lib x0 M targets = Inr rest" and xs: "xs = x # rest"
    by (auto split: sum.splits)
  from x have "lib_minimize lib (\<lambda>currentMID. computeCost currentMID target M) x0
       (replicate (length x0) (0, None)) = Inr x"
    by (simp only: minimizeCost_def)
  with assms have "within_bounds x (replicate (length x0) (0, None))"
    unfolding bounds_kept_def by blast
  then have "\<forall>v\<in>set x. 0 \<le> v" by (rule within_bounds_nonneg)
  with Cons.IH[OF rest] xs show ?case by simp
qed

lemma correct_LSC_nonneg:
  assumes "bounds_kept lib"
    and "correctForNaturalAbundance lib self dataFrame ''LSC'' = (printed, Inr out)"
  shows "\<forall>row\<in>set (df_values out). \<forall>v\<in>set row. 0 \<le> v"
proof -
  from assms(2) obtain pr M where
    c: "computeCorrectionMatrix (self_elementsDict self) (self_atomTracer self)
             (self_NaturalAbundanceDistributions self) (self_purityTracer self) = (pr, Inr M)"
    by (auto simp: correctForNaturalAbundance_def split: prod.splits sum.splits)
  let ?k = "length (df_columns dataFrame)"
  define dfData where "dfData = (if width M < ?k then None
        else Some (map (\<lambda>row. row @ replicate (width M - ?k) 0) (df_values dataFrame)))"
  note eq = correct_unfold[OF c, of lib dataFrame "''LSC''", folded dfData_def]
  from assms(2) obtain ncols cd where
    cd: "corrected_data lib ''LSC'' M (width M) dfData = Inr (ncols, cd)"
    and out: "df_values out = map (take ?k) cd"
    unfolding eq by (auto split: sum.splits if_splits)
  from cd obtain d where d: "dfData = Some d"
    by (cases dfData) (auto simp: corrected_data_def)
  with cd obtain first others where f: "d = first # others"
    by (cases d) (auto simp: corrected_data_def)
  from cd have "minimize_all lib (replicate (length first) 0) M (first # others) = Inr cd"
    unfolding corrected_data_def d f
    by (simp del: minimize_all.simps split: sum.splits if_splits)
  from minimize_all_nonneg[OF assms(1) this] have nn: "\<forall>x\<in>set cd. \<forall>v\<in>set x. 0 \<le> v" .
  show ?thesis
  proof (intro ballI)
    fix row v assume "row \<in> set (df_values out)" and v: "v \<in> set row"
    then obtain x where "x \<in> set cd" "row = take ?k x" unfolding out by auto
    with v nn show "0 \<le> v" by (auto dest: in_set_takeD)
  qed
qed

lemma correct_succeeds:
  assumes contract: "library_contract lib" and wf: "wf_frame dataFrame"
    and matrix: "computeCorrectionMatrix (self_elementsDict self) (self_atomTracer self)
             (self_NaturalAbundanceDistributions self) (self_purityTracer self) = (pr, Inr M)"
    and M: "M \<noteq> []" "\<forall>row\<in>set M. length row = c" "length M = c"
    and fits: "length (df_columns dataFrame) \<le> c"
    and meth: "method = ''SMC'' \<or> method = ''LSC'' \<and> df_values dataFrame \<noteq> []"
  shows "\<exists>out. correctForNaturalAbundance lib self dataFrame method = (pr, Inr out)"
proof -
  let ?k = "length (df_columns dataFrame)"
  let ?d = "map (\<lambda>row. row @ replicate (c - ?k) 0) (df_values dataFrame)"
  have w: "width M = c" using M(1,2) by (cases M) (auto simp: width_def)
  have c_pos: "0 < c" using M(1,3) by auto
  have rows: "\<forall>row\<in>set ?d. length row = c"
    using wf fits by (auto simp: wf_frame_def list_all_iff)
  have "\<exists>ncols cd. corrected_data lib method M c (Some ?d) = Inr (ncols, cd) \<and> ncols = c"
  proof (cases "method = ''SMC''")
    case True
    from library_contract_pinv[OF contract M(1)]
    obtain P where P: "lib_pinv lib M = Inr P" "length P = width M"
      "\<forall>row\<in>set P. length row = length M"
      by blast
    have "P \<noteq> []" using P(2) w c_pos by auto
    then have "width P = c" using P(3) M(3) by (cases P) (auto simp: width_def)
    then show ?thesis using True P(1,2) w by (simp add: corrected_data_def)
  next
    case False
    with meth have lsc: "method = ''LSC''" and ne: "df_values dataFrame \<noteq> []" by auto
    then obtain first others where d: "?d = first # others" by (cases "df_values dataFrame") auto
    have "first \<in> set ?d" unfolding d by simp
    with rows have fl: "length first = c" by blast
    from minimize_all_succeeds[OF contract M, of ?d] rows
    obtain xs where xs: "minimize_all lib (replicate c 0) M ?d = Inr xs"
      "\<forall>x\<in>set xs. length x = c" "length xs = length ?d" by blast
    have "xs \<noteq> []" using xs(3) d by auto
    then have wx: "width xs = c" using xs(2) by (cases xs) (auto simp: width_def)
    have "corrected_data lib method M c (Some ?d) = Inr (c, xs)"
      using lsc xs(1,2) wx fl unfolding d corrected_data_def
      by (simp add: list_all_iff)
    then show ?thesis by blast
  qed
  then obtain cd where "corrected_data lib method M c (Some ?d) = Inr (c, cd)" by blast
  then show ?thesis
    using correct_unfold[OF matrix, of lib dataFrame "method"] w fits by simp
qed

lemma palmitate_process:
  "\<exists>M. NAProcess_init ''C16:0 (270)'' ''H'' [0, 1] True False
        = ([], Inr \<lparr>self_NaturalAbundanceDistributions = NaturalAbundanceDistributions,
                     self_formula = ''C17H34O2'',
                     self_elementsDict = parseFormula ''C17H34O2'',
                     self_atomTracer = ''H'',
                     self_purityTracer = [0, 1],
                     self_correctionMatrix = M\<rparr>)
     \<and> computeCorrectionMatrix (parseFormula ''C17H34O2'') ''H'' NaturalAbundanceDistributions [0, 1]
        = ([], Inr M)
     \<and> M \<noteq> [] \<and> length M = 35 \<and> (\<forall>row\<in>set M. length row = 35)"
proof -
  have f: "getFAFormulaString ''C16:0 (270)'' True False = Inr ''C17H34O2''" by code_simp
  have n: "map_of (parseFormula ''C17H34O2'') ''H'' = Some 34" by code_simp
  have t: "map_of NaturalAbundanceDistributions ''H'' = Some [0.999885, 0.000115]"
    by (simp add: NaturalAbundanceDistributions_def)
  have k: "distributions_known (parseFormula ''C17H34O2'') ''H'' NaturalAbundanceDistributions"
    by code_simp
  from calculateMassDistributionVector_succeeds[OF k]
  obtain base where base: "calculateMassDistributionVector (parseFormula ''C17H34O2'') ''H''
           NaturalAbundanceDistributions = Inr base" by blast
  from computeCorrectionMatrix_built[OF n t _ _ base, of "[0, 1]"]
  obtain M where M: "computeCorrectionMatrix (parseFormula ''C17H34O2'') ''H''
        NaturalAbundanceDistributions [0, 1] = ([], Inr M)"
    "length M = 35" "\<forall>row\<in>set M. length row = 35"
    by auto
  have "M \<noteq> []" using M(2) by auto
  moreover have "NAProcess_init ''C16:0 (270)'' ''H'' [0, 1] True False
        = ([], Inr \<lparr>self_NaturalAbundanceDistributions = NaturalAbundanceDistributions,
                     self_formula = ''C17H34O2'',
                     self_elementsDict = parseFormula ''C17H34O2'',
                     self_atomTracer = ''H'',
                     self_purityTracer = [0, 1],
                     self_correctionMatrix = M\<rparr>)"
    using f M(1) by (simp add: NAProcess_init_def)
  ultimately show ?thesis using M by blast
qed

lemma frame_of_zeros_props:
  "wf_frame (frame_of_zeros k)" "length (df_columns (frame_of_zeros k)) = k"
  "df_values (frame_of_zeros k) \<noteq> []" "length (df_values (frame_of_zeros k)) = 1"
  by (simp_all add: frame_of_zeros_def wf_frame_def)

lemma palmitate_run:
  "\<exists>self out. NAProcess_init ''C16:0 (270)'' ''H'' [0, 1] True False = ([], Inr self)
     \<and> correctForNaturalAbundance zero_library self (frame_of_zeros 2) ''LSC'' = ([], Inr out)"
proof -
  from palmitate_process obtain M self where
    self: "self = \<lparr>self_NaturalAbundanceDistributions = NaturalAbundanceDistributions,
                     self_formula = ''C17H34O2'',
                     self_elementsDict = parseFormula ''C17H34O2'',
                     self_atomTracer = ''H'',
                     self_purityTracer = [0, 1],
                     self_correctionMatrix = M\<rparr>"
    and init: "NAProcess_init ''C16:0 (270)'' ''H'' [0, 1] True False = ([], Inr self)"
    and M: "computeCorrectionMatrix (parseFormula ''C17H34O2'') ''H''
        NaturalAbundanceDistributions [0, 1] = ([], Inr M)"
      "M \<noteq> []" "length M = 35" "\<forall>row\<in>set M. length row = 35"
    by blast
  have matrix: "computeCorrectionMatrix (self_elementsDict self) (self_atomTracer self)
      (self_NaturalAbundanceDistributions self) (self_purityTracer self) = ([], Inr M)"
    using M(1) by (simp add: self)
  have fits: "length (df_columns (frame_of_zeros 2)) \<le> 35"
    by (simp add: frame_of_zeros_props)
  have meth: "''LSC'' = ''SMC'' \<or> ''LSC'' = ''LSC'' \<and> df_values (frame_of_zeros 2) \<noteq> []"
    by (simp add: frame_of_zeros_props)
  from correct_succeeds[OF zero_library_contract frame_of_zeros_props(1) matrix M(2) M(4) M(3)
      fits meth]
  obtain out where
    "correctForNaturalAbundance zero_library self (frame_of_zeros 2) ''LSC'' = ([], Inr out)"
    by blast
  with init show ?thesis by blast
qed







text \<open>
  A matrix with more rows than columns, as every tracer with more than two isotopes
  gives it: the observed rows are padded to the number of columns, so the product with
  the transposed pseudo-inverse is not defined and \<^verbatim>\<open>SMC\<close> raises \<^verbatim>\<open>ValueError\<close>;
  and the cost function of \<^verbatim>\<open>LSC\<close> raises \<^verbatim>\<open>ValueError\<close> on every candidate, the
  observed row and the product of the matrix with the candidate having different
  lengths.
\<close>

lemma tall_matrix_raises:
  assumes matrix: "computeCorrectionMatrix (self_elementsDict self) (self_atomTracer self)
             (self_NaturalAbundanceDistributions self) (self_purityTracer self) = (pr, Inr M)"
    and M: "\<forall>row\<in>set M. length row = c" "c < length M" "1 < c"
    and fits: "length (df_columns dataFrame) \<le> c"
  shows "library_contract lib \<Longrightarrow>
         correctForNaturalAbundance lib self dataFrame ''SMC'' = (pr, Inl ValueError)"
    and "length x = c \<Longrightarrow> length target = c \<Longrightarrow> computeCost x target M = Inl ValueError"
proof -
  have ne: "M \<noteq> []" using M(2) by auto
  then have w: "width M = c" using M(1) by (cases M) (auto simp: width_def)
  {
    assume contract: "library_contract lib"
    from library_contract_pinv[OF contract ne]
    obtain P where P: "lib_pinv lib M = Inr P" "length P = width M"
      "\<forall>row\<in>set P. length row = length M" by blast
    have "P \<noteq> []" using P(2) w M(3) by auto
    then have "width P = length M" using P(3) by (cases P) (auto simp: width_def)
    then have "width P \<noteq> c" using M(2) by simp
    then have "corrected_data lib ''SMC'' M c
        (Some (map (\<lambda>row. row @ replicate (c - length (df_columns dataFrame)) 0)
                 (df_values dataFrame))) = Inl ValueError"
      using P(1) by (simp add: corrected_data_def)
    then show "correctForNaturalAbundance lib self dataFrame ''SMC'' = (pr, Inl ValueError)"
      using correct_unfold[OF matrix, of lib dataFrame "''SMC''"] w fits by simp
  }
  {
    assume x: "length x = c" and t: "length target = c"
    have p: "dot_matrix_vector M x = Inr (map (\<lambda>row. dot row x) M)"
      using M(1) x by (simp add: dot_matrix_vector_def list_all_iff)
    have "subtract target (map (\<lambda>row. dot row x) M) = Inl ValueError"
      using t M(2,3) by (simp add: subtract_def)
    with p show "computeCost x target M = Inl ValueError"
      by (simp add: computeCost_def)
  }
qed


section \<open>Standard curves: lemmas\<close>

text \<open>
  The test as Python evaluates it: with a length below 2 the fit is skipped; with
  exactly two values the bitwise or is \<open>1 OR 2 = 3\<close>, which is not below 3.
\<close>

lemma fit_skipped_iff:
  "fit_skipped lx ly = (ly < 2 \<or> ly = 2 \<and> 3 \<le> lx)"
proof (cases "ly < 3")
  case True
  then consider "ly = 0" | "ly = 1" | "ly = 2" by linarith
  then show ?thesis by cases (auto simp: fit_skipped_def)
next
  case False
  have "int ly \<le> of_bool (lx < 3) OR int ly"
    using or_greater_eq[of "of_bool (lx < 3)" "int ly"] by (simp add: or.commute)
  with False show ?thesis by (simp add: fit_skipped_def)
qed

lemma example_masks:
  "original_mask [Finite 1, Finite 2, Finite 4, Finite 8] [Finite 0, Finite 0, Finite 12, Finite 25]
     = [False, False, True, True]"
  "original_mask [Finite 1, Finite 2, Finite 4, Finite 8] [Finite 0, Finite 0, Finite 0, Finite 9]
     = [False, False, False, True]"
  "original_mask [Finite 1, Finite 2, Finite 4, Finite 8] [Finite 0, Finite 3, Finite 5, Finite 11]
     = [False, True, True, True]"
  by (simp_all add: original_mask_def)

lemma example_absorbance:
  "getStandardAbsorbance standards_example =
     \<lparr>fr_len = 4,
      fr_columns =
           [(''C16:0 (270)'', [Finite 0, Finite 0, Finite 12, Finite 25]),
            (''C18:0 (298)'', [Finite 0, Finite 0, Finite 0, Finite 9]),
            (''C18:1 (296)'', [Finite 0, Finite 3, Finite 5, Finite 11])]\<rparr>"
  by (simp add: getStandardAbsorbance_def standards_example_def is_standard_def is_digit_def
      boolean_index_def)

lemma example_columns:
  "map_of (fr_columns (standardDf_nMoles standards_example)) ''C16:0 (270)''
     = Some [Finite 1, Finite 2, Finite 4, Finite 8]"
  "map_of (fr_columns (standardDf_nMoles standards_example)) ''C18:0 (298)''
     = Some [Finite 1, Finite 2, Finite 4, Finite 8]"
  "map_of (fr_columns (standardDf_nMoles standards_example)) ''C18:1 (296)''
     = Some [Finite 1, Finite 2, Finite 4, Finite 8]"
  by (simp_all add: standards_example_def)

lemma fit_two_points:
  "fit_column linregress False (standardDf_nMoles standards_example) ''C16:0 (270)''
       [Finite 0, Finite 0, Finite 12, Finite 25] (printed, Some d, fitDf) =
     (case linregress [Finite 4, Finite 8] [Finite 12, Finite 25] of
        Inl e \<Rightarrow> Inl e
      | Inr (slope, intercept, rvalue) \<Rightarrow>
          Inr (printed,
               Some (dict_set d ''C16:0 (270)''
                       \<lparr>originalMask = [False, False, True, True], newMask = None\<rparr>),
               dict_set fitDf ''C16:0 (270)'' (slope, intercept, float_square rvalue)))"
  by (simp add: fit_column_def example_columns fit_values_def example_masks np_index_def
      boolean_index_def fit_skipped_iff Let_def)

lemma fit_one_point:
  "fit_column linregress False (standardDf_nMoles standards_example) ''C18:0 (298)''
       [Finite 0, Finite 0, Finite 0, Finite 9] (printed, Some d, fitDf) =
     Inr (printed @ [skipped_message ''C18:0 (298)''],
          Some (dict_set d ''C18:0 (298)''
                  \<lparr>originalMask = [False, False, False, True], newMask = None\<rparr>),
          fitDf)"
  by (simp add: fit_column_def example_columns fit_values_def example_masks np_index_def
      boolean_index_def fit_skipped_iff Let_def)

lemma fit_three_points:
  "fit_column linregress False (standardDf_nMoles standards_example) ''C18:1 (296)''
       [Finite 0, Finite 3, Finite 5, Finite 11] (printed, Some d, fitDf) =
     (case linregress [Finite 2, Finite 4, Finite 8] [Finite 3, Finite 5, Finite 11] of
        Inl e \<Rightarrow> Inl e
      | Inr (slope, intercept, rvalue) \<Rightarrow>
          Inr (printed,
               Some (dict_set d ''C18:1 (296)''
                       \<lparr>originalMask = [False, True, True, True], newMask = None\<rparr>),
               dict_set fitDf ''C18:1 (296)'' (slope, intercept, float_square rvalue)))"
  by (simp add: fit_column_def example_columns fit_values_def example_masks np_index_def
      boolean_index_def fit_skipped_iff Let_def)

lemma example_fits:
  "computeStandardFits linregress standards_example False =
     (case linregress [Finite 4, Finite 8] [Finite 12, Finite 25] of
        Inl e \<Rightarrow> Inl e
      | Inr (slope, intercept, rvalue) \<Rightarrow>
          (case linregress [Finite 2, Finite 4, Finite 8] [Finite 3, Finite 5, Finite 11] of
             Inl e \<Rightarrow> Inl e
           | Inr (slope', intercept', rvalue') \<Rightarrow>
               Inr ([skipped_message ''C18:0 (298)''],
                    standards_example\<lparr>maskFAMES := Some example_masks_stored,
                       standardDf_fitResults :=
                         [(''C16:0 (270)'', slope, intercept, float_square rvalue),
                          (''C18:1 (296)'', slope', intercept', float_square rvalue')]\<rparr>,
                    [(''C16:0 (270)'', slope, intercept, float_square rvalue),
                     (''C18:1 (296)'', slope', intercept', float_square rvalue')])))"
proof -
  have len: "fr_len (standardDf_nMoles standards_example) = 4"
    by (simp add: standards_example_def)
  show ?thesis
    unfolding computeStandardFits_def example_absorbance
    by (simp add: len fit_two_points fit_one_point fit_three_points example_masks_stored_def
        Let_def split: sum.splits prod.splits)
qed

lemma example_quantification:
  "computeQuantificationFromStandardFits linregress standards_example False =
     (case linregress [Finite 4, Finite 8] [Finite 12, Finite 25] of
        Inl e \<Rightarrow> Inl e
      | Inr (slope, intercept, rvalue) \<Rightarrow>
          (case linregress [Finite 2, Finite 4, Finite 8] [Finite 3, Finite 5, Finite 11] of
             Inl e \<Rightarrow> Inl e
           | Inr (slope', intercept', rvalue') \<Rightarrow>
               Inr ([skipped_message ''C18:0 (298)''],
                    standards_example\<lparr>maskFAMES := Some example_masks_stored,
                       standardDf_fitResults :=
                         [(''C16:0 (270)'', slope, intercept, float_square rvalue),
                          (''C18:1 (296)'', slope', intercept', float_square rvalue')]\<rparr>,
                    [(''C16:0 (270)'',
                        map (\<lambda>v. float_div (float_sub v intercept) slope)
                          [Finite 0, Finite 0, Finite 12, Finite 25, Finite 18]),
                     (''C18:1 (296)'',
                        map (\<lambda>v. float_div (float_sub v intercept') slope')
                          [Finite 0, Finite 3, Finite 5, Finite 11, Finite 6])])))"
  unfolding computeQuantificationFromStandardFits_def example_fits
  by (simp add: standards_example_def Let_def split: sum.splits prod.splits)



lemma str_nat_digit: "n < 10 \<Longrightarrow> str_nat n = [digit_char n]"
  by (simp add: str_nat.simps)

lemma distinct_concat_once:
  "distinct (concat xss) \<Longrightarrow> x \<in> set (concat xss) \<Longrightarrow> length (filter (\<lambda>xs. x \<in> set xs) xss) = 1"
proof (induction xss)
  case Nil
  then show ?case by simp
next
  case (Cons xs xss)
  show ?case
  proof (cases "x \<in> set xs")
    case True
    then have "\<forall>ys\<in>set xss. x \<notin> set ys" using Cons.prems(1) by auto
    then have "filter (\<lambda>xs. x \<in> set xs) xss = []" by (simp add: filter_empty_conv)
    then show ?thesis using True by simp
  next
    case False
    then have "x \<in> set (concat xss)" using Cons.prems(2) by simp
    then show ?thesis using Cons False by simp
  qed
qed

section \<open>Ion grouping: the claims\<close>




text \<open>
  Claim C5. Whatever non-empty group \<^verbatim>\<open>__getIonParentedGroups\<close> splits: the clusters
  are consecutive pieces of the group (their concatenation is the group), inside a
  cluster every consecutive mass difference is 1, between two neighbouring clusters the
  difference is not 1, and every cluster is labelled from its lowest mass, the ion \<open>n\<close>
  units above it being \<^verbatim>\<open>M.n\<close>. In particular the masses 100, 101, 102, 105, 106 under
  one description \<open>d\<close> give two clusters, of the columns 0, 1, 2 and 3, 4, named
  \<^verbatim>\<open>M.0\<close> to \<^verbatim>\<open>M.2\<close> and \<^verbatim>\<open>M.0\<close> to \<^verbatim>\<open>M.1\<close>.
\<close>

theorem mass_jump_splitting:
  "(grp \<noteq> [] \<longrightarrow>
      (let clusters = map snd (split_group key grp) in
         concat clusters = grp
       \<and> list_all (\<lambda>c. c \<noteq> [] \<and> unit_steps (map (\<lambda>ion. ionMass (snd ion)) c)
                      \<and> labelled_from_lowest c) clusters
       \<and> jumps_between (map (map (\<lambda>ion. ionMass (snd ion))) clusters)))
   \<and> map (\<lambda>(key, grp). (key, map (\<lambda>(idx, ion). (idx, ionMass ion)) grp))
        (getIonParentedGroups (cluster_example d [ia, ib, ic, ie, ig]))
       = [(d @ ''-0'', [(0, 100), (1, 101), (2, 102)]), (d @ ''-1'', [(3, 105), (4, 106)])]
   \<and> map snd (sortedIonNames (getIonParentedGroups (cluster_example d [ia, ib, ic, ie, ig])))
       = map (\<lambda>l. ''C'' @ take 2 d @ '':'' @ drop 2 d @ l)
           ['' (100) M.0'', '' (100) M.1'', '' (100) M.2'', '' (105) M.0'', '' (105) M.1'']"
proof (intro conjI impI)
  assume ne: "grp \<noteq> []"
  let ?mass = "\<lambda>ion::indexed_ion. ionMass (snd ion)"
  let ?clusters = "map snd (split_group key grp)"
  from split_group_clusters[OF ne, of key]
  have steps: "list_all (\<lambda>c. c \<noteq> [] \<and> unit_steps (map ?mass c)) ?clusters"
    and jumps: "jumps_between (map (\<lambda>p. map ?mass (snd p)) (split_group key grp))"
    by simp_all
  have "list_all (\<lambda>c. c \<noteq> [] \<and> unit_steps (map ?mass c) \<and> labelled_from_lowest c) ?clusters"
    using steps by (auto simp: list_all_iff intro: unit_steps_labelled)
  moreover have "jumps_between (map (map ?mass) ?clusters)"
    using jumps by (simp add: comp_def)
  ultimately show "let clusters = ?clusters in
         concat clusters = grp
       \<and> list_all (\<lambda>c. c \<noteq> [] \<and> unit_steps (map ?mass c) \<and> labelled_from_lowest c) clusters
       \<and> jumps_between (map (map ?mass) clusters)"
    by (simp add: Let_def split_group_concat)
next
  show "map (\<lambda>(key, grp). (key, map (\<lambda>(idx, ion). (idx, ionMass ion)) grp))
        (getIonParentedGroups (cluster_example d [ia, ib, ic, ie, ig]))
       = [(d @ ''-0'', [(0, 100), (1, 101), (2, 102)]), (d @ ''-1'', [(3, 105), (4, 106)])]"
    by (simp add: getIonParentedGroups_def groupsIntraSorted_def cluster_example_def
        enumerate_eq_zip split_group_def differences_def where_not_one_def Let_def
        str_nat_digit digit_char_def upt_conv_Cons)
next
  show "map snd (sortedIonNames (getIonParentedGroups (cluster_example d [ia, ib, ic, ie, ig])))
       = map (\<lambda>l. ''C'' @ take 2 d @ '':'' @ drop 2 d @ l)
           ['' (100) M.0'', '' (100) M.1'', '' (100) M.2'', '' (105) M.0'', '' (105) M.1'']"
    by (simp add: getIonParentedGroups_def groupsIntraSorted_def cluster_example_def
        enumerate_eq_zip split_group_def differences_def where_not_one_def Let_def
        str_nat_digit digit_char_def upt_conv_Cons sortedIonNames_def ionName_def str_int_def
        str_nat.simps[of 100] str_nat.simps[of 105] str_nat.simps[of 10])
qed

text \<open>
  The theorem at the five columns of description \<^verbatim>\<open>160\<close>: the group is split into
  \<^verbatim>\<open>160-0\<close> with three ions and \<^verbatim>\<open>160-1\<close> with two, and the columns are named
  \<^verbatim>\<open>C16:0 (100) M.0\<close> \<dots> \<^verbatim>\<open>C16:0 (105) M.1\<close>.
\<close>

theorem mass_jump_splitting_witness:
  "enumerate 0 (cluster_example ''160'' [1, 2, 3, 4, 5]) \<noteq> []
   \<and> map (\<lambda>(key, grp). (key, map fst grp))
        (split_group ''160'' (enumerate 0 (cluster_example ''160'' [1, 2, 3, 4, 5])))
       = [(''160-0'', [0, 1, 2]), (''160-1'', [3, 4])]
   \<and> list_all (\<lambda>c. c \<noteq> [] \<and> unit_steps (map (\<lambda>ion. ionMass (snd ion)) c) \<and> labelled_from_lowest c)
        (map snd (split_group ''160'' (enumerate 0 (cluster_example ''160'' [1, 2, 3, 4, 5]))))
   \<and> map snd (sortedIonNames (getIonParentedGroups (cluster_example ''160'' [1, 2, 3, 4, 5])))
       = [''C16:0 (100) M.0'', ''C16:0 (100) M.1'', ''C16:0 (100) M.2'',
          ''C16:0 (105) M.0'', ''C16:0 (105) M.1'']"
proof -
  let ?g = "enumerate 0 (cluster_example ''160'' [1, 2, 3, 4, 5])"
  have ne: "?g \<noteq> []" by (simp add: cluster_example_def)
  note inst = mass_jump_splitting[where grp = ?g and key = "''160''" and d = "''160''"
      and ia = 1 and ib = 2 and ic = 3 and ie = 4 and ig = 5]
  from inst ne have labelled:
    "list_all (\<lambda>c. c \<noteq> [] \<and> unit_steps (map (\<lambda>ion. ionMass (snd ion)) c) \<and> labelled_from_lowest c)
        (map snd (split_group ''160'' ?g))"
    by (simp add: Let_def)
  from inst have names:
    "map snd (sortedIonNames (getIonParentedGroups (cluster_example ''160'' [1, 2, 3, 4, 5])))
       = [''C16:0 (100) M.0'', ''C16:0 (100) M.1'', ''C16:0 (100) M.2'',
          ''C16:0 (105) M.0'', ''C16:0 (105) M.1'']"
    by simp
  have split: "map (\<lambda>(key, grp). (key, map fst grp)) (split_group ''160'' ?g)
       = [(''160-0'', [0, 1, 2]), (''160-1'', [3, 4])]"
    by (simp add: cluster_example_def enumerate_eq_zip split_group_def differences_def
        where_not_one_def Let_def str_nat_digit digit_char_def upt_conv_Cons)
  from ne split labelled names show ?thesis by blast
qed

text \<open>
  Claim C10. Grouping and splitting only rearranges the indexed columns: the ions of
  all final groups together are, as a multiset, the input columns paired with their
  indices; no indexed column occurs twice; every indexed column lies in exactly one
  final group; and the group sizes add up to the number of input columns.
\<close>

theorem ion_groups_partition:
  "mset (concat (map snd (getIonParentedGroups ionsDetected))) = mset (enumerate 0 ionsDetected)
   \<and> distinct (concat (map snd (getIonParentedGroups ionsDetected)))
   \<and> (\<forall>p\<in>set (enumerate 0 ionsDetected).
        length (filter (\<lambda>(key, grp). p \<in> set grp) (getIonParentedGroups ionsDetected)) = 1)
   \<and> sum_list (map (\<lambda>(key, grp). length grp) (getIonParentedGroups ionsDetected))
       = length ionsDetected"
proof -
  let ?final = "getIonParentedGroups ionsDetected"
  let ?all = "concat (map snd ?final)"
  have m: "mset ?all = mset (enumerate 0 ionsDetected)"
    by (simp only: getIonParentedGroups_def finalGroups_concat groupsIntraSorted_mset)
  have d: "distinct ?all"
    using m distinct_enumerate[of 0 ionsDetected] by (metis mset_eq_imp_distinct_iff)
  have once: "length (filter (\<lambda>(key, grp). p \<in> set grp) ?final) = 1"
    if "p \<in> set (enumerate 0 ionsDetected)" for p
  proof -
    have "p \<in> set ?all" using that m by (metis mset_eq_setD)
    from distinct_concat_once[OF d this]
    have "length (filter (\<lambda>xs. p \<in> set xs) (map snd ?final)) = 1" .
    moreover have "filter (\<lambda>xs. p \<in> set xs) (map snd ?final)
        = map snd (filter (\<lambda>(key, grp). p \<in> set grp) ?final)"
      by (simp add: filter_map comp_def case_prod_unfold)
    ultimately show ?thesis by simp
  qed
  have "length ?all = length (enumerate 0 ionsDetected)" using m by (rule mset_eq_length)
  then have "sum_list (map (\<lambda>(key, grp). length grp) ?final) = length ionsDetected"
    by (simp add: length_concat comp_def case_prod_unfold)
  with m d once show ?thesis by blast
qed

text \<open>
  The theorem at the five columns of description \<^verbatim>\<open>160\<close>: the two final groups
  hold the columns 0, 1, 2 and 3, 4, five in all.
\<close>

theorem ion_groups_partition_witness:
  "map (\<lambda>(key, grp). map fst grp) (getIonParentedGroups (cluster_example ''160'' [1, 2, 3, 4, 5]))
     = [[0, 1, 2], [3, 4]]
   \<and> distinct (concat (map snd (getIonParentedGroups (cluster_example ''160'' [1, 2, 3, 4, 5]))))
   \<and> sum_list (map (\<lambda>(key, grp). length grp)
        (getIonParentedGroups (cluster_example ''160'' [1, 2, 3, 4, 5]))) = 5"
proof -
  have "map (\<lambda>(key, grp). map fst grp) (getIonParentedGroups (cluster_example ''160'' [1, 2, 3, 4, 5]))
     = [[0, 1, 2], [3, 4]]"
    by (simp add: getIonParentedGroups_def groupsIntraSorted_def cluster_example_def
        enumerate_eq_zip split_group_def differences_def where_not_one_def Let_def
        upt_conv_Cons)
  moreover have "length (cluster_example ''160'' [1, 2, 3, 4, 5]) = 5"
    by (simp add: cluster_example_def)
  ultimately show ?thesis
    using ion_groups_partition[of "cluster_example ''160'' [1, 2, 3, 4, 5]"] by simp
qed

section \<open>Formula strings: the claim\<close>

text \<open>
  Claim C6, as amended. For every entry in which the chain pattern is found, with the
  digit strings \<open>c\<close> and \<open>d\<close> for the carbons and the double bonds, the formula string
  is written and parsed back to the composition with oxygen 2, carbon \<open>n\<close> (one more when
  derivatized) and hydrogen \<open>max 0 (3 + (n - 2) * 2 + 1 - 2 * d)\<close> (2 added before the
  maximum when derivatized): a count that is not positive is left out of the formula
  string, so the parsed composition has 0 for it. The chain notation written from
  \<open>n\<close> and \<open>m\<close> is found with these numbers, and \<^verbatim>\<open>C16:0\<close> derivatized gives
  \<^verbatim>\<open>C17H34O2\<close>, that is C 17, H 34, O 2 and 0 for the other elements of the table.
\<close>

theorem chain_composition:
  "(first_chain entry = Some (c, d) \<longrightarrow>
      (\<exists>formula. getFAFormulaString entry FAMES False = Inr formula \<and>
         parseFormula formula =
           [(''H'', nat (max 0 (3 + (int (int_of_digits c) - 2) * 2 + 1 - 2 * int (int_of_digits d)
                                + (if FAMES then 2 else 0)))),
            (''C'', int_of_digits c + (if FAMES then 1 else 0)),
            (''N'', 0), (''O'', 2), (''Si'', 0), (''S'', 0)]))
   \<and> first_chain (''C'' @ str_nat n @ '':'' @ str_nat m) = Some (str_nat n, str_nat m)
   \<and> int_of_digits (str_nat n) = n \<and> int_of_digits (str_nat m) = m
   \<and> getFAFormulaString ''C16:0'' True False = Inr ''C17H34O2''
   \<and> parseFormula ''C17H34O2''
       = [(''H'', 34), (''C'', 17), (''N'', 0), (''O'', 2), (''Si'', 0), (''S'', 0)]"
proof -
  have "getFAFormulaString ''C16:0'' True False = Inr ''C17H34O2''"
    by code_simp
  moreover have "parseFormula ''C17H34O2''
       = [(''H'', 34), (''C'', 17), (''N'', 0), (''O'', 2), (''Si'', 0), (''S'', 0)]"
    by code_simp
  ultimately show ?thesis
    using chain_composition_aux[of entry c d FAMES] first_chain_notation[of n m]
      int_of_digits_str_nat[of n] int_of_digits_str_nat[of m]
    by (intro conjI impI) assumption+
qed

text \<open>
  The theorem at the entry \<^verbatim>\<open>C16:0 (270)\<close>, a parental ion name, derivatized.
\<close>

theorem chain_composition_witness:
  "first_chain ''C16:0 (270)'' = Some (''16'', ''0'')
   \<and> (\<exists>formula. getFAFormulaString ''C16:0 (270)'' True False = Inr formula \<and>
         parseFormula formula
           = [(''H'', 34), (''C'', 17), (''N'', 0), (''O'', 2), (''Si'', 0), (''S'', 0)])"
proof -
  have fc: "first_chain ''C16:0 (270)'' = Some (''16'', ''0'')" by code_simp
  have c: "int_of_digits ''16'' = 16" and d: "int_of_digits ''0'' = 0" by code_simp+
  from chain_composition[of "''C16:0 (270)''" "''16''" "''0''" True] fc
  have "\<exists>formula. getFAFormulaString ''C16:0 (270)'' True False = Inr formula \<and>
         parseFormula formula =
           [(''H'', nat (max 0 (3 + (int (int_of_digits ''16'') - 2) * 2 + 1
                                  - 2 * int (int_of_digits ''0'') + (if True then 2 else 0)))),
            (''C'', int_of_digits ''16'' + (if True then 1 else 0)),
            (''N'', 0), (''O'', 2), (''Si'', 0), (''S'', 0)]"
    by blast
  then show ?thesis using fc by (simp add: c d)
qed

text \<open>
  The claim as stated fails at the chain \<^verbatim>\<open>C2:5\<close>, not derivatized: the rule gives
  hydrogen \<open>3 + (2 - 2) * 2 + 1 - 2 * 5 = -6\<close>, the formula string is \<^verbatim>\<open>C2O2\<close> and the
  composition has hydrogen 0.
\<close>

theorem negative_hydrogen_counterexample:
  "first_chain ''C2:5'' = Some (''2'', ''5'')
   \<and> int_of_digits ''2'' = 2 \<and> int_of_digits ''5'' = 5
   \<and> getFAFormulaString ''C2:5'' False False = Inr ''C2O2''
   \<and> parseFormula ''C2O2''
       = [(''H'', 0), (''C'', 2), (''N'', 0), (''O'', 2), (''Si'', 0), (''S'', 0)]
   \<and> int 0 \<noteq> 3 + (2 - 2) * 2 + 1 - 2 * 5"
  by code_simp

section \<open>The correction matrix: the claims\<close>

text \<open>
  Claim C7. For a composition with \<open>n \<ge> 1\<close> tracer atoms, a tracer with a non-empty
  distribution \<open>t\<close> in the table, a non-empty purity vector and a table that covers the
  other elements: the base correction vector is computed, it is the vector \<open>[1]\<close>
  convolved, for every element but the tracer, as many times as the element counts with
  that element's distribution; the matrix is built without a message, with
  \<open>1 + n * (length t - 1)\<close> rows and \<open>n + 1\<close> columns, and its column 0 is the base
  vector convolved \<open>n\<close> times with \<open>t\<close>, cut to the number of rows.
\<close>

theorem correction_matrix_first_column:
  assumes "map_of elementDict atomTracer = Some n" and "1 \<le> n"
    and "map_of NADistributions atomTracer = Some t" and "t \<noteq> []"
    and "purityTracer \<noteq> []"
    and "distributions_known elementDict atomTracer NADistributions"
  shows "\<exists>base M.
       calculateMassDistributionVector elementDict atomTracer NADistributions = Inr base
     \<and> base = foldl (\<lambda>res (atom, k). ((\<lambda>x. convolve x (the (map_of NADistributions atom))) ^^ k) res)
                [1] (filter (\<lambda>(atom, k). atom \<noteq> atomTracer) elementDict)
     \<and> computeCorrectionMatrix elementDict atomTracer NADistributions purityTracer = ([], Inr M)
     \<and> length M = 1 + n * (length t - 1) \<and> (\<forall>row\<in>set M. length row = n + 1)
     \<and> map (\<lambda>row. row ! 0) M
         = take (1 + n * (length t - 1)) (((\<lambda>col. convolve col t) ^^ n) base)"
proof -
  from calculateMassDistributionVector_succeeds[OF assms(6)]
  obtain base where base:
    "calculateMassDistributionVector elementDict atomTracer NADistributions = Inr base" by blast
  have p: "n = 0 \<or> purityTracer \<noteq> []" using assms(5) by simp
  from computeCorrectionMatrix_built[OF assms(1,3,4) p base]
    calculateMassDistributionVector_Inr(2)[OF base] base
  show ?thesis by blast
qed

text \<open>
  The theorem at the composition of \<^verbatim>\<open>C17H34O2\<close> with the tracer H, 34 atoms, the
  table of the program and the purity vector \<open>[0, 1]\<close>: a matrix of 35 rows and 35
  columns.
\<close>

theorem correction_matrix_first_column_witness:
  "map_of (parseFormula ''C17H34O2'') ''H'' = Some 34
   \<and> map_of NaturalAbundanceDistributions ''H'' = Some [0.999885, 0.000115]
   \<and> distributions_known (parseFormula ''C17H34O2'') ''H'' NaturalAbundanceDistributions
   \<and> (\<exists>base M.
         calculateMassDistributionVector (parseFormula ''C17H34O2'') ''H''
           NaturalAbundanceDistributions = Inr base
       \<and> computeCorrectionMatrix (parseFormula ''C17H34O2'') ''H'' NaturalAbundanceDistributions
           [0, 1] = ([], Inr M)
       \<and> length M = 35 \<and> (\<forall>row\<in>set M. length row = 35)
       \<and> map (\<lambda>row. row ! 0) M
           = take 35 (((\<lambda>col. convolve col [0.999885, 0.000115]) ^^ 34) base))"
proof -
  have n: "map_of (parseFormula ''C17H34O2'') ''H'' = Some 34" by code_simp
  have t: "map_of NaturalAbundanceDistributions ''H'' = Some [0.999885, 0.000115]"
    by (simp add: NaturalAbundanceDistributions_def)
  have k: "distributions_known (parseFormula ''C17H34O2'') ''H'' NaturalAbundanceDistributions"
    by code_simp
  from correction_matrix_first_column[OF n _ t _ _ k, of "[0, 1]"]
  have "\<exists>base M.
         calculateMassDistributionVector (parseFormula ''C17H34O2'') ''H''
           NaturalAbundanceDistributions = Inr base
       \<and> computeCorrectionMatrix (parseFormula ''C17H34O2'') ''H'' NaturalAbundanceDistributions
           [0, 1] = ([], Inr M)
       \<and> length M = 35 \<and> (\<forall>row\<in>set M. length row = 35)
       \<and> map (\<lambda>row. row ! 0) M
           = take 35 (((\<lambda>col. convolve col [0.999885, 0.000115]) ^^ 34) base)"
    by simp
  with n t k show ?thesis by blast
qed

text \<open>
  Claim C2: the code at a composition without tracer atoms. \<^verbatim>\<open>parseFormula\<close> enters
  every element of the table with the count 0, so for \<^verbatim>\<open>C17H34O2\<close> and the tracer N
  the lookup of the tracer succeeds with 0, nothing is printed and nothing is raised:
  a matrix of one row and one column comes back, holding the first entry of the base
  vector.
\<close>

theorem zero_tracer_matrix_built:
  "map_of (parseFormula ''C17H34O2'') ''N'' = Some 0
   \<and> (\<exists>base.
         calculateMassDistributionVector (parseFormula ''C17H34O2'') ''N''
           NaturalAbundanceDistributions = Inr base
       \<and> computeCorrectionMatrix (parseFormula ''C17H34O2'') ''N'' NaturalAbundanceDistributions
           [0, 1] = ([], Inr [[hd base]]))"
proof -
  have n: "map_of (parseFormula ''C17H34O2'') ''N'' = Some 0" by code_simp
  have t: "map_of NaturalAbundanceDistributions ''N'' = Some [0.99632, 0.00368]"
    by (simp add: NaturalAbundanceDistributions_def)
  have k: "distributions_known (parseFormula ''C17H34O2'') ''N'' NaturalAbundanceDistributions"
    by code_simp
  from calculateMassDistributionVector_succeeds[OF k]
  obtain base where base: "calculateMassDistributionVector (parseFormula ''C17H34O2'') ''N''
           NaturalAbundanceDistributions = Inr base" by blast
  have bne: "base \<noteq> []" using calculateMassDistributionVector_Inr(1)[OF base] .
  from computeCorrectionMatrix_built[OF n t _ _ base, of "[0, 1]"]
  obtain M where M: "computeCorrectionMatrix (parseFormula ''C17H34O2'') ''N''
        NaturalAbundanceDistributions [0, 1] = ([], Inr M)"
    "length M = 1" "\<forall>row\<in>set M. length row = 1" "map (\<lambda>row. row ! 0) M = take 1 base"
    by auto
  from M(2) obtain row where row: "M = [row]" by (cases M) auto
  with M(3) obtain x where x: "row = [x]" by (cases row) auto
  have "take 1 base = [hd base]" using bne by (cases base) auto
  with M(4) row x have "x = hd base" by simp
  with M(1) row x n base show ?thesis by blast
qed

section \<open>Correcting a data frame: the claims\<close>

text \<open>
  Claim C1: the code at a frame wider than the matrix. The object is the one of
  \<^verbatim>\<open>NAProcess("C16:0 (270)", "H")\<close>, 34 tracer atoms and a matrix of 35 columns; the
  frame has 36 columns. The warning is printed, and since only the \<^verbatim>\<open>else\<close> branch
  binds \<^verbatim>\<open>dfData\<close>, the method \<^verbatim>\<open>LSC\<close> then raises \<^verbatim>\<open>UnboundLocalError\<close> and the
  method \<^verbatim>\<open>SMC\<close> raises as well, whatever the library returns: no frame comes back.
\<close>

theorem more_clusters_unbound:
  "\<exists>self. NAProcess_init ''C16:0 (270)'' ''H'' [0, 1] True False = ([], Inr self)
     \<and> map_of (self_elementsDict self) ''H'' = Some 34
     \<and> length (df_columns (frame_of_zeros 36)) = 36
     \<and> correctForNaturalAbundance lib self (frame_of_zeros 36) ''LSC''
         = ([more_clusters_message], Inl UnboundLocalError)
     \<and> (\<exists>e. correctForNaturalAbundance lib self (frame_of_zeros 36) ''SMC''
              = ([more_clusters_message], Inl e))"
proof -
  from palmitate_process obtain M self where
    self: "self = \<lparr>self_NaturalAbundanceDistributions = NaturalAbundanceDistributions,
                     self_formula = ''C17H34O2'',
                     self_elementsDict = parseFormula ''C17H34O2'',
                     self_atomTracer = ''H'',
                     self_purityTracer = [0, 1],
                     self_correctionMatrix = M\<rparr>"
    and init: "NAProcess_init ''C16:0 (270)'' ''H'' [0, 1] True False = ([], Inr self)"
    and M: "computeCorrectionMatrix (parseFormula ''C17H34O2'') ''H''
        NaturalAbundanceDistributions [0, 1] = ([], Inr M)"
      "M \<noteq> []" "length M = 35" "\<forall>row\<in>set M. length row = 35"
    by blast
  have matrix: "computeCorrectionMatrix (self_elementsDict self) (self_atomTracer self)
             (self_NaturalAbundanceDistributions self) (self_purityTracer self) = ([], Inr M)"
    using M(1) by (simp add: self)
  have "width M = 35" using M(2,4) by (cases M) (auto simp: width_def)
  then have less: "width M < length (df_columns (frame_of_zeros 36))"
    by (simp add: frame_of_zeros_props)
  have n: "map_of (self_elementsDict self) ''H'' = Some 34"
  proof -
    have "map_of (parseFormula ''C17H34O2'') ''H'' = Some 34" by code_simp
    then show ?thesis by (simp add: self)
  qed
  have lsc: "correctForNaturalAbundance lib self (frame_of_zeros 36) ''LSC''
         = ([more_clusters_message], Inl UnboundLocalError)"
    using correct_more_clusters(2)[OF matrix less, of "''LSC''" lib] by simp
  have smc: "\<exists>e. correctForNaturalAbundance lib self (frame_of_zeros 36) ''SMC''
              = ([more_clusters_message], Inl e)"
    using correct_more_clusters(1)[OF matrix less, of lib "''SMC''"] by simp
  from init n lsc smc frame_of_zeros_props(2)[of 36] show ?thesis by blast
qed





subsection \<open>C8: the sign of the least-squares correction\<close>

text \<open>
  Claim C8. Every component of a frame returned by the method \<^verbatim>\<open>LSC\<close> is at least 0,
  for every observed frame, provided the minimizer returns a vector within the bounds
  it is given. The code hands it the lower bound 0 for every component and puts the
  vectors it returns into the frame unchanged, up to the columns that are cut off.
\<close>

theorem lsc_nonnegative:
  assumes "bounds_kept lib"
    and "correctForNaturalAbundance lib self dataFrame ''LSC'' = (printed, Inr out)"
  shows "list_all (\<lambda>row. list_all (\<lambda>v. 0 \<le> v) row) (df_values out)"
  using correct_LSC_nonneg[OF assms] by (simp add: list_all_iff)

text \<open>
  The theorem at the object of \<^verbatim>\<open>NAProcess("C16:0 (270)", "H")\<close> and a frame of two
  columns and one sample, with a library that keeps the bounds.
\<close>

theorem lsc_nonnegative_witness:
  "bounds_kept zero_library
   \<and> (\<exists>self out. NAProcess_init ''C16:0 (270)'' ''H'' [0, 1] True False = ([], Inr self)
        \<and> correctForNaturalAbundance zero_library self (frame_of_zeros 2) ''LSC'' = ([], Inr out)
        \<and> list_all (\<lambda>row. list_all (\<lambda>v. 0 \<le> v) row) (df_values out))"
proof -
  from palmitate_run obtain self out where
    init: "NAProcess_init ''C16:0 (270)'' ''H'' [0, 1] True False = ([], Inr self)"
    and run: "correctForNaturalAbundance zero_library self (frame_of_zeros 2) ''LSC''
        = ([], Inr out)"
    by blast
  from lsc_nonnegative[OF zero_library_bounds run]
  have "list_all (\<lambda>row. list_all (\<lambda>v. 0 \<le> v) row) (df_values out)" .
  with init run zero_library_bounds show ?thesis by blast
qed

subsection \<open>C9: which standard curves are fitted\<close>

text \<open>
  Claim C9. The fit of a cluster is skipped when its mask leaves fewer than two
  standards, not fewer than three: \<open>fit_skipped n n\<close> holds exactly for \<open>n < 2\<close>. In the
  run of four standards the cluster \<^verbatim>\<open>C16:0 (270)\<close> keeps two of them, and
  \<^verbatim>\<open>linregress\<close> is called on these two points: unless it raises, the table of fits
  has an entry for the cluster, nothing is printed about it, and the quantification has
  a column of values for it. The cluster \<^verbatim>\<open>C18:0 (298)\<close>, with one standard left, is
  skipped and has no column; \<^verbatim>\<open>C18:1 (296)\<close>, with three, is fitted.
\<close>

theorem two_point_cluster_fitted:
  "fit_skipped n n = (n < 2)
   \<and> computeStandardFits linregress standards_example False =
       (case linregress [Finite 4, Finite 8] [Finite 12, Finite 25] of
          Inl e \<Rightarrow> Inl e
        | Inr (slope, intercept, rvalue) \<Rightarrow>
            (case linregress [Finite 2, Finite 4, Finite 8] [Finite 3, Finite 5, Finite 11] of
               Inl e \<Rightarrow> Inl e
             | Inr (slope', intercept', rvalue') \<Rightarrow>
                 Inr ([skipped_message ''C18:0 (298)''],
                      standards_example\<lparr>maskFAMES := Some example_masks_stored,
                         standardDf_fitResults :=
                           [(''C16:0 (270)'', slope, intercept, float_square rvalue),
                            (''C18:1 (296)'', slope', intercept', float_square rvalue')]\<rparr>,
                      [(''C16:0 (270)'', slope, intercept, float_square rvalue),
                       (''C18:1 (296)'', slope', intercept', float_square rvalue')])))
   \<and> computeQuantificationFromStandardFits linregress standards_example False =
       (case linregress [Finite 4, Finite 8] [Finite 12, Finite 25] of
          Inl e \<Rightarrow> Inl e
        | Inr (slope, intercept, rvalue) \<Rightarrow>
            (case linregress [Finite 2, Finite 4, Finite 8] [Finite 3, Finite 5, Finite 11] of
               Inl e \<Rightarrow> Inl e
             | Inr (slope', intercept', rvalue') \<Rightarrow>
                 Inr ([skipped_message ''C18:0 (298)''],
                      standards_example\<lparr>maskFAMES := Some example_masks_stored,
                         standardDf_fitResults :=
                           [(''C16:0 (270)'', slope, intercept, float_square rvalue),
                            (''C18:1 (296)'', slope', intercept', float_square rvalue')]\<rparr>,
                      [(''C16:0 (270)'',
                          map (\<lambda>v. float_div (float_sub v intercept) slope)
                            [Finite 0, Finite 0, Finite 12, Finite 25, Finite 18]),
                       (''C18:1 (296)'',
                          map (\<lambda>v. float_div (float_sub v intercept') slope')
                            [Finite 0, Finite 3, Finite 5, Finite 11, Finite 6])])))"
proof (intro conjI)
  show "fit_skipped n n = (n < 2)" by (auto simp: fit_skipped_iff)
qed (rule example_fits, rule example_quantification)

end
